theory Spec2Isabelle
  imports Main
begin

section \<open>The session broker of server.c\<close>

text \<open>
  The broker is the parent process of server.c: it owns the client table, the room
  table, the per-slot appeal records and the room logs, and it serves one control line
  per ready client in each call of \<open>handle_parent_messages\<close>.

  Conventions of the embedding:
  \<^item> a C string is a \<open>string\<close> without the terminating NUL; a buffer that was filled by
    \<open>read\<close> is cut at its first NUL byte (\<open>cstr\<close>) before the string functions see it;
  \<^item> the arrays \<open>clients\<close> and \<open>last_appeal_msg\<close> are lists; the loops
    \<open>for (i = 0; i < MAX_CLIENTS; ++i)\<close> run over all indices of the list, and
    \<open>table_ok\<close> below says that the lists have \<open>MAX_CLIENTS\<close> entries;
  \<^item> \<open>rooms\<close> is the list of the first \<open>room_count\<close> entries of the C array, so
    \<open>room_count\<close> is its length;
  \<^item> every \<open>write\<close> and \<open>close\<close> is recorded as an event in the trace \<open>out\<close>; the
    pipe pair of slot \<open>k\<close> is named by \<open>k\<close>. A write is taken to succeed in full;
  \<^item> the filter program (filter.c) and the success of \<open>open\<close> are the environment
    \<open>env_t\<close>, passed to the functions that use them.
\<close>

subsection \<open>Constants\<close>

definition BUF :: nat where "BUF = 8192"
definition MAX_CLIENTS :: nat where "MAX_CLIENTS = 128"
definition MAX_ROOMS :: nat where "MAX_ROOMS = 128"
definition LOGDIR :: string where "LOGDIR = ''logs''"
definition ADMIN_PASSWORD :: string where "ADMIN_PASSWORD = ''admin123''"

abbreviation NUL :: char where "NUL \<equiv> CHR 0x00"
abbreviation LF :: char where "LF \<equiv> CHR 0x0A"
abbreviation CR :: char where "CR \<equiv> CHR 0x0D"
abbreviation QUOTE :: char where "QUOTE \<equiv> CHR 0x27"

subsection \<open>Data\<close>

text \<open>\<open>client_t\<close> without \<open>pid\<close> and the two descriptors, which the trace names by slot.\<close>

record client_t =
  username :: string
  room :: string
  connected :: bool
  muted :: bool
  is_admin :: bool

datatype event =
    Write nat string
  | Overrun nat string nat
  | Close nat
  | SockWrite string
  | SockClose

text \<open>
  \<open>Write k bs\<close>: the bytes \<open>bs\<close> written to \<open>clients[k].to_child_fd\<close>.
  \<open>Overrun k bs n\<close>: a \<open>writef\<close> whose formatted text has \<open>n \<ge> BUF\<close> bytes; the buffer
  holds \<open>bs\<close> (the first \<open>BUF - 1\<close> bytes) and \<open>write\<close> is asked for \<open>n\<close> bytes.
  \<open>Close k\<close>: both pipe ends of slot \<open>k\<close> closed.
  \<open>SockWrite\<close>, \<open>SockClose\<close>: on the socket that \<open>accept\<close> has just returned.
\<close>

record server =
  clients :: "client_t list"
  rooms :: "string list"
  last_appeal_msg :: "string list"
  files :: "string \<rightharpoonup> string"
  out :: "event list"
  console :: "string list"

record env_t =
  filter_read :: "string \<Rightarrow> string option"
  open_append_ok :: "string \<Rightarrow> bool"

text \<open>
  \<open>filter_read e bs\<close>: what the parent's one \<open>read\<close> from the filter's output pipe
  returns after \<open>bs\<close> was written to its input; \<open>None\<close> when \<open>pipe\<close> or \<open>fork\<close> failed or
  the read returned nothing.
  \<open>open_append_ok e path\<close>: whether \<open>open(path, O_WRONLY | O_CREAT | O_APPEND)\<close> succeeds.
\<close>

definition table_ok :: "server \<Rightarrow> bool" where
  "table_ok s \<longleftrightarrow>
     length (clients s) = MAX_CLIENTS \<and> length (last_appeal_msg s) = MAX_CLIENTS \<and>
     length (rooms s) \<le> MAX_ROOMS"

subsection \<open>String helpers\<close>

definition cstr :: "string \<Rightarrow> string" where
  "cstr bs = takeWhile (\<lambda>c. c \<noteq> NUL) bs"

definition trim_newline :: "string \<Rightarrow> string" where
  "trim_newline s = takeWhile (\<lambda>c. c \<noteq> CR \<and> c \<noteq> LF) s"

text \<open>
  \<open>strtok_r\<close> on the rest \<open>s\<close> of the buffer: skip delimiters, return the token up to
  the next delimiter and the new \<open>save\<close> position behind it.
\<close>

definition strtok_r :: "string \<Rightarrow> string \<Rightarrow> string option \<times> string" where
  "strtok_r s delim =
     (let s1 = dropWhile (\<lambda>c. c \<in> set delim) s
      in if s1 = [] then (None, [])
         else (Some (takeWhile (\<lambda>c. c \<notin> set delim) s1),
               drop 1 (dropWhile (\<lambda>c. c \<notin> set delim) s1)))"

text \<open>
  \<open>sp = strchr(t, ' '); if (sp) *sp = 0\<close>: the part before the first space and, when
  there is a space, the part behind it.
\<close>

definition split_space :: "string \<Rightarrow> string \<times> string option" where
  "split_space t =
     (if CHR '' '' \<in> set t
      then (takeWhile (\<lambda>c. c \<noteq> CHR '' '') t, Some (drop 1 (dropWhile (\<lambda>c. c \<noteq> CHR '' '') t)))
      else (t, None))"

fun dec :: "nat \<Rightarrow> string" where
  "dec n = (if n < 10 then [char_of (48 + n)] else dec (n div 10) @ [char_of (48 + n mod 10)])"

declare dec.simps [simp del]

fun chunks :: "nat \<Rightarrow> 'a list \<Rightarrow> 'a list list" where
  "chunks n xs = (if n = 0 \<or> xs = [] then [] else take n xs # chunks n (drop n xs))"

declare chunks.simps [simp del]

primrec first_index :: "('a \<Rightarrow> bool) \<Rightarrow> 'a list \<Rightarrow> nat option" where
  "first_index P [] = None"
| "first_index P (x # xs) = (if P x then Some 0 else map_option Suc (first_index P xs))"

subsection \<open>Output\<close>

definition writef :: "nat \<Rightarrow> string \<Rightarrow> server \<Rightarrow> server" where
  "writef k text s =
     s\<lparr>out := out s @ [if length text < BUF then Write k text
                        else Overrun k (take (BUF - 1) text) (length text)]\<rparr>"

definition write_fd :: "nat \<Rightarrow> string \<Rightarrow> server \<Rightarrow> server" where
  "write_fd k bs s = s\<lparr>out := out s @ [Write k bs]\<rparr>"

definition printf :: "string \<Rightarrow> server \<Rightarrow> server" where
  "printf text s = s\<lparr>console := console s @ [text]\<rparr>"

definition close_client :: "nat \<Rightarrow> server \<Rightarrow> server" where
  "close_client k s =
     s\<lparr>clients := (clients s)[k := (clients s ! k)\<lparr>connected := False\<rparr>],
       out := out s @ [Close k]\<rparr>"

text \<open>The loop that writes one text to every slot whose entry satisfies \<open>P\<close>.\<close>

definition write_all :: "(client_t \<Rightarrow> bool) \<Rightarrow> string \<Rightarrow> server \<Rightarrow> server" where
  "write_all P text s =
     fold (\<lambda>k st. if P (clients st ! k) then writef k text st else st)
       [0..<length (clients s)] s"

subsection \<open>Rooms, logs and the filter\<close>

definition add_room_if_missing :: "string \<Rightarrow> server \<Rightarrow> server" where
  "add_room_if_missing r s =
     (if r = [] then s
      else if r \<in> set (rooms s) then s
      else if length (rooms s) < MAX_ROOMS then s\<lparr>rooms := rooms s @ [take 63 r]\<rparr>
      else s)"

text \<open>\<open>snprintf(path, sizeof(path), "%s/%s.log", LOGDIR, room)\<close> with \<open>char path[256]\<close>.\<close>

definition log_path :: "string \<Rightarrow> string" where
  "log_path r = take 255 (LOGDIR @ ''/'' @ r @ ''.log'')"

definition append_room_log :: "env_t \<Rightarrow> string \<Rightarrow> string \<Rightarrow> server \<Rightarrow> server" where
  "append_room_log e r msg s =
     (if open_append_ok e (log_path r)
      then s\<lparr>files := (files s)(log_path r \<mapsto>
                 (case files s (log_path r) of None \<Rightarrow> [] | Some old \<Rightarrow> old) @ msg @ [LF])\<rparr>
      else s)"

definition run_filter_and_get_output :: "env_t \<Rightarrow> string \<Rightarrow> string" where
  "run_filter_and_get_output e input =
     (case filter_read e (input @ [LF]) of
        None \<Rightarrow> input
      | Some bs \<Rightarrow> if bs = [] then input else trim_newline (cstr (take (BUF - 1) bs)))"

subsection \<open>Broadcast and private messages\<close>

text \<open>
  Every caller passes strings for \<open>room\<close>, \<open>from\<close> and \<open>msg\<close>, so the NULL defaults of
  \<open>broadcast_to_room\<close> and the NULL test of \<open>send_private\<close> have no case here.
\<close>

definition broadcast_to_room :: "env_t \<Rightarrow> string \<Rightarrow> string \<Rightarrow> string \<Rightarrow> server \<Rightarrow> server" where
  "broadcast_to_room e r sender msg s =
     (let s1 = add_room_if_missing r s;
          filtered = run_filter_and_get_output e msg;
          line = take (BUF - 1) (''['' @ r @ ''] '' @ sender @ '': '' @ filtered);
          s2 = append_room_log e r line s1
      in if r = ''global''
         then write_all (\<lambda>c. connected c) (line @ [LF]) s2
         else write_all (\<lambda>c. connected c \<and> room c = r) (line @ [LF]) s2)"

definition find_free_slot :: "client_t list \<Rightarrow> nat option" where
  "find_free_slot cs = first_index (\<lambda>c. \<not> connected c) cs"

definition find_client_by_name :: "client_t list \<Rightarrow> string \<Rightarrow> nat option" where
  "find_client_by_name cs name = first_index (\<lambda>c. connected c \<and> username c = name) cs"

definition send_private :: "env_t \<Rightarrow> string \<Rightarrow> string \<Rightarrow> string \<Rightarrow> server \<Rightarrow> bool \<times> server" where
  "send_private e sender dst msg s =
     (case first_index (\<lambda>c. connected c \<and> username c = dst) (clients s) of
        None \<Rightarrow> (False, s)
      | Some k \<Rightarrow>
          (True, writef k (''[PM] '' @ sender @ '' -> you: '' @
                           run_filter_and_get_output e msg @ [LF]) s))"

subsection \<open>The commands of \<open>handle_parent_messages\<close>\<close>

definition cmd_JOIN :: "env_t \<Rightarrow> nat \<Rightarrow> string \<Rightarrow> server \<Rightarrow> server" where
  "cmd_JOIN e i save s =
     (case strtok_r save ''|'' of
        (None, _) \<Rightarrow> s
      | (Some uname, save1) \<Rightarrow>
          (case strtok_r save1 ''|'' of
             (None, _) \<Rightarrow> s
           | (Some r, _) \<Rightarrow>
               (let s1 = s\<lparr>clients := (clients s)
                            [i := (clients s ! i)\<lparr>username := take 63 uname, room := take 63 r\<rparr>]\<rparr>;
                    s2 = add_room_if_missing r s1;
                    s3 = writef i (''Welcome '' @ uname @ '' to '' @ r @ [LF]) s2
                in broadcast_to_room e r ''server'' ''a new user has joined'' s3)))"

definition cmd_MSG :: "env_t \<Rightarrow> nat \<Rightarrow> string \<Rightarrow> server \<Rightarrow> server" where
  "cmd_MSG e i save s =
     (case strtok_r save ''|'' of
        (None, _) \<Rightarrow> s
      | (Some uname, save1) \<Rightarrow>
          (case strtok_r save1 ''|'' of
             (None, _) \<Rightarrow> s
           | (Some r, save2) \<Rightarrow>
               (case strtok_r save2 ''|'' of
                  (None, _) \<Rightarrow> s
                | (Some message, _) \<Rightarrow>
                    if muted (clients s ! i) then writef i (''You are muted.'' @ [LF]) s
                    else broadcast_to_room e r uname message s)))"

definition cmd_PM :: "env_t \<Rightarrow> nat \<Rightarrow> string \<Rightarrow> server \<Rightarrow> server" where
  "cmd_PM e i save s =
     (case strtok_r save ''|'' of
        (None, _) \<Rightarrow> s
      | (Some sender, save1) \<Rightarrow>
          (case strtok_r save1 ''|'' of
             (None, _) \<Rightarrow> s
           | (Some dst, save2) \<Rightarrow>
               (case strtok_r save2 ''|'' of
                  (None, _) \<Rightarrow> s
                | (Some message, _) \<Rightarrow>
                    (case send_private e sender dst message s of
                       (False, s1) \<Rightarrow> writef i (''User '' @ dst @ '' not found'' @ [LF]) s1
                     | (True, s1) \<Rightarrow> writef i (''PM sent to '' @ dst @ [LF]) s1))))"

text \<open>
  The loop of the APPEAL branch: forward to every connected admin and count them.
  \<open>appeal_step\<close> is the body of the loop for slot \<open>k\<close>, with the \<open>printf\<close> to the
  console of the server.
\<close>

definition appeal_step :: "string \<Rightarrow> string \<Rightarrow> nat \<Rightarrow> nat \<times> server \<Rightarrow> nat \<times> server" where
  "appeal_step sender message k p =
     (case p of
        (sent, st) \<Rightarrow>
          if connected (clients st ! k) \<and> is_admin (clients st ! k)
          then (Suc sent,
                printf (''Forwarded APPEAL from '' @ [QUOTE] @ sender @ [QUOTE] @
                        '' to admin slot '' @ dec k @ '' (user='' @ [QUOTE] @
                        (if username (clients st ! k) \<noteq> [] then username (clients st ! k)
                         else ''(unnamed)'') @ [QUOTE] @ '', room='' @ [QUOTE] @
                        (if room (clients st ! k) \<noteq> [] then room (clients st ! k)
                         else ''(none)'') @ [QUOTE] @ '')'' @ [LF])
                  (writef k (''[APPEAL] '' @ sender @ '': '' @ message @ [LF]) st))
          else (sent, st))"

definition appeal_forward :: "string \<Rightarrow> string \<Rightarrow> server \<Rightarrow> nat \<times> server" where
  "appeal_forward sender message s =
     fold (appeal_step sender message) [0..<length (clients s)] (0, s)"

definition cmd_APPEAL :: "nat \<Rightarrow> string \<Rightarrow> server \<Rightarrow> server" where
  "cmd_APPEAL i save s =
     (case strtok_r save ''|'' of
        (None, _) \<Rightarrow> s
      | (Some sender, save1) \<Rightarrow>
          (case strtok_r save1 [LF] of
             (None, _) \<Rightarrow> s
           | (Some message, _) \<Rightarrow>
               (let sender_idx = find_client_by_name (clients s) sender
                in if (case sender_idx of
                         None \<Rightarrow> False
                       | Some j \<Rightarrow> last_appeal_msg s ! j \<noteq> [] \<and> last_appeal_msg s ! j = message)
                   then writef i (''Your appeal was already sent to admins recently.'' @ [LF]) s
                   else
                     (let s1 = (case sender_idx of
                                  None \<Rightarrow> s
                                | Some j \<Rightarrow>
                                    s\<lparr>last_appeal_msg := (last_appeal_msg s)[j := take 511 message]\<rparr>)
                      in case appeal_forward sender message s1 of
                           (sent, s2) \<Rightarrow>
                             if sent = 0
                             then writef i (''No admins currently online. Try again later.'' @ [LF]) s2
                             else writef i (''Your appeal was sent to '' @ dec sent @
                                            '' admin(s).'' @ [LF]) s2))))"

definition cmd_HISTORY :: "nat \<Rightarrow> string \<Rightarrow> server \<Rightarrow> server" where
  "cmd_HISTORY i save s =
     (case strtok_r save ''|'' of
        (None, _) \<Rightarrow> s
      | (Some r, _) \<Rightarrow>
          (case files s (log_path r) of
             None \<Rightarrow> writef i (''No history for '' @ r @ [LF]) s
           | Some content \<Rightarrow> fold (write_fd i) (chunks 1024 content) s))"

definition cmd_ROOMS :: "nat \<Rightarrow> server \<Rightarrow> server" where
  "cmd_ROOMS i s =
     (if length (rooms s) = 0 then writef i (''No rooms'' @ [LF]) s
      else fold (\<lambda>r. writef i (r @ [LF])) (rooms s) s)"

definition cmd_QUIT :: "nat \<Rightarrow> server \<Rightarrow> server" where
  "cmd_QUIT i s = close_client i (writef i (''Goodbye'' @ [LF]) s)"

subsection \<open>The ADMIN command\<close>

text \<open>
  The parsing part of the ADMIN branch: \<open>username\<close>, \<open>third\<close> and \<open>action\<close> are the next
  three tokens; \<open>None\<close> is the "Admin malformed" exit. The result is
  \<open>(username, password, action_word, action_args, save)\<close>. The second
  "Admin malformed" exit of the source, \<open>if (!password)\<close>, cannot be taken:
  \<open>password\<close> is \<open>third\<close> on every path, and \<open>third\<close> is not NULL there.
\<close>

definition admin_parse ::
  "string \<Rightarrow> (string \<times> string \<times> string option \<times> string option \<times> string) option" where
  "admin_parse save =
     (case strtok_r save ''|'' of
        (uname, save1) \<Rightarrow>
          (case strtok_r save1 ''|'' of
             (third, save2) \<Rightarrow>
               (case strtok_r save2 ''|'' of
                  (action, save3) \<Rightarrow>
                    (case (uname, third) of
                       (Some u, Some t) \<Rightarrow>
                         (case (case action of
                                  None \<Rightarrow> split_space t
                                | Some a \<Rightarrow> (t, Some a)) of
                            (password, action_with_args) \<Rightarrow>
                              (case action_with_args of
                                 None \<Rightarrow> Some (u, password, None, None, save3)
                               | Some a \<Rightarrow>
                                   (case split_space a of
                                      (w, args) \<Rightarrow> Some (u, password, Some w, args, save3))))
                     | _ \<Rightarrow> None))))"

text \<open>\<open>action_args ? action_args : strtok_r(NULL, "|", &save)\<close>\<close>

definition admin_arg :: "string option \<Rightarrow> string \<Rightarrow> string option" where
  "admin_arg action_args save =
     (case action_args of Some a \<Rightarrow> Some a | None \<Rightarrow> fst (strtok_r save ''|''))"

definition admin_action ::
  "env_t \<Rightarrow> nat \<Rightarrow> string \<Rightarrow> string option \<Rightarrow> string \<Rightarrow> server \<Rightarrow> server" where
  "admin_action e i action_word action_args save s =
     (if action_word = ''KICK'' then
        (case admin_arg action_args save of
           None \<Rightarrow> writef i (''KICK requires username'' @ [LF]) s
         | Some target \<Rightarrow>
             (case find_client_by_name (clients s) target of
                Some idx \<Rightarrow> close_client idx (writef idx (''You have been kicked by admin'' @ [LF]) s)
              | None \<Rightarrow> writef i (''User not found'' @ [LF]) s))
      else if action_word = ''MUTE'' then
        (case admin_arg action_args save of
           None \<Rightarrow> writef i (''MUTE requires username'' @ [LF]) s
         | Some target \<Rightarrow>
             (case find_client_by_name (clients s) target of
                Some idx \<Rightarrow>
                  writef idx (''You are muted by admin'' @ [LF])
                    (s\<lparr>clients := (clients s)[idx := (clients s ! idx)\<lparr>muted := True\<rparr>]\<rparr>)
              | None \<Rightarrow> writef i (''User not found'' @ [LF]) s))
      else if action_word = ''UNMUTE'' then
        (case admin_arg action_args save of
           None \<Rightarrow> writef i (''UNMUTE requires username'' @ [LF]) s
         | Some target \<Rightarrow>
             (case find_client_by_name (clients s) target of
                Some idx \<Rightarrow>
                  writef idx (''You are unmuted by admin'' @ [LF])
                    (s\<lparr>clients := (clients s)[idx := (clients s ! idx)\<lparr>muted := False\<rparr>]\<rparr>)
              | None \<Rightarrow> writef i (''User not found'' @ [LF]) s))
      else if action_word = ''BROADCAST'' then
        broadcast_to_room e ''global'' ''admin''
          (case admin_arg action_args save of None \<Rightarrow> [] | Some msg \<Rightarrow> msg) s
      else if action_word = ''ROOMS'' then
        (if length (rooms s) = 0 then writef i (''No rooms'' @ [LF]) s
         else fold (\<lambda>r. writef i ('' - '' @ r @ [LF])) (rooms s)
                (writef i (''Rooms ('' @ dec (length (rooms s)) @ ''):'' @ [LF]) s))
      else if action_word = ''USERS'' then
        fold (\<lambda>k st.
                if connected (clients st ! k) \<and> username (clients st ! k) \<noteq> []
                then writef i ('' - '' @ username (clients st ! k) @ '' (room: '' @
                               (if room (clients st ! k) \<noteq> [] then room (clients st ! k)
                                else ''none'') @ '')'' @ [LF]) st
                else st)
          [0..<length (clients s)]
          (writef i (''Active users: '' @ dec (length (filter connected (clients s))) @ [LF]) s)
      else writef i (''Unknown admin action: '' @ action_word @ [LF]) s)"

definition cmd_ADMIN :: "env_t \<Rightarrow> nat \<Rightarrow> string \<Rightarrow> server \<Rightarrow> server" where
  "cmd_ADMIN e i save s =
     (case admin_parse save of
        None \<Rightarrow> writef i (''Admin malformed'' @ [LF]) s
      | Some (uname, password, action_word, action_args, save3) \<Rightarrow>
          if password \<noteq> ADMIN_PASSWORD then writef i (''Admin auth failed'' @ [LF]) s
          else
            (let s1 = s\<lparr>clients := (clients s)[i := (clients s ! i)\<lparr>is_admin := True\<rparr>]\<rparr>
             in case action_word of
                  None \<Rightarrow> writef i (''Admin: no action'' @ [LF]) s1
                | Some w \<Rightarrow> admin_action e i w action_args save3 s1))"

subsection \<open>The loop of \<open>handle_parent_messages\<close>\<close>

text \<open>The body of the loop for slot \<open>i\<close> once \<open>read\<close> has returned the bytes \<open>buf\<close>.\<close>

definition dispatch :: "env_t \<Rightarrow> nat \<Rightarrow> string \<Rightarrow> server \<Rightarrow> server" where
  "dispatch e i buf s =
     (case strtok_r (trim_newline (cstr buf)) ''|'' of
        (None, _) \<Rightarrow> s
      | (Some cmd, save) \<Rightarrow>
          if cmd = ''JOIN'' then cmd_JOIN e i save s
          else if cmd = ''MSG'' then cmd_MSG e i save s
          else if cmd = ''PM'' then cmd_PM e i save s
          else if cmd = ''APPEAL'' then cmd_APPEAL i save s
          else if cmd = ''HISTORY'' then cmd_HISTORY i save s
          else if cmd = ''ROOMS'' then cmd_ROOMS i s
          else if cmd = ''QUIT'' then cmd_QUIT i s
          else if cmd = ''ADMIN'' then cmd_ADMIN e i save s
          else writef i (''Unknown command: '' @ cmd @ [LF]) s)"

text \<open>
  What \<open>select\<close> and \<open>read\<close> give for one slot: not in the ready set, a read that
  returned \<open>n \<le> 0\<close>, or the bytes read.
\<close>

datatype rd = NotReady | ReadFail | ReadData string

definition service :: "env_t \<Rightarrow> nat \<Rightarrow> rd \<Rightarrow> server \<Rightarrow> server" where
  "service e i r s =
     (if \<not> connected (clients s ! i) then s
      else case r of
             NotReady \<Rightarrow> s
           | ReadFail \<Rightarrow> close_client i s
           | ReadData buf \<Rightarrow> dispatch e i buf s)"

definition handle_parent_messages :: "env_t \<Rightarrow> (nat \<Rightarrow> rd) \<Rightarrow> server \<Rightarrow> server" where
  "handle_parent_messages e inp s =
     fold (\<lambda>i. service e i (inp i)) [0..<length (clients s)] s"

subsection \<open>Accepting a connection, and \<open>main\<close>\<close>

text \<open>
  The parent's side of \<open>accept_and_spawn\<close>; the outcome of \<open>accept\<close>, \<open>pipe\<close> and
  \<open>fork\<close> is the argument. The child process works on its own copy of the memory and
  reaches the broker only through its pipe, whose content is the \<open>rd\<close> above.
\<close>

datatype spawn = AcceptFail | PipeFail | ForkFail | Spawned

definition accept_and_spawn :: "spawn \<Rightarrow> server \<Rightarrow> server" where
  "accept_and_spawn sp s =
     (if sp = AcceptFail then s
      else case find_free_slot (clients s) of
             None \<Rightarrow> s\<lparr>out := out s @ [SockWrite (''Server full'' @ [LF]), SockClose]\<rparr>
           | Some slot \<Rightarrow>
               if sp = PipeFail \<or> sp = ForkFail then s\<lparr>out := out s @ [SockClose]\<rparr>
               else
                 (let s1 = s\<lparr>clients := (clients s)
                              [slot := (clients s ! slot)
                                 \<lparr>username := [], room := [], connected := True, muted := False\<rparr>]\<rparr>;
                      s2 = writef slot
                             (''Welcome to MultiChat! Use /nick, /join, /pm, /rooms'' @ [LF]) s1
                  in s2\<lparr>out := out s2 @ [SockClose]\<rparr>))"

text \<open>
  The state after the initialisation in \<open>main\<close>: static storage is zeroed, the loop
  clears the flags, and \<open>add_room_if_missing("lobby")\<close> runs before the first
  \<open>accept\<close>. \<open>fs\<close> is the content of the log directory found at startup.
\<close>

definition main_init :: "(string \<rightharpoonup> string) \<Rightarrow> server" where
  "main_init fs =
     add_room_if_missing ''lobby''
       \<lparr>clients = replicate MAX_CLIENTS
                    \<lparr>username = [], room = [], connected = False, muted = False, is_admin = False\<rparr>,
        rooms = [],
        last_appeal_msg = replicate MAX_CLIENTS [],
        files = fs,
        out = [],
        console = []\<rparr>"

text \<open>
  One turn of the loop of \<open>main\<close>: \<open>accept_and_spawn\<close> when the listening socket is
  ready, then \<open>handle_parent_messages\<close>.
\<close>

definition main_cycle :: "env_t \<Rightarrow> spawn option \<times> (nat \<Rightarrow> rd) \<Rightarrow> server \<Rightarrow> server" where
  "main_cycle e c s =
     handle_parent_messages e (snd c)
       (case fst c of None \<Rightarrow> s | Some sp \<Rightarrow> accept_and_spawn sp s)"

definition main_loop ::
  "env_t \<Rightarrow> (string \<rightharpoonup> string) \<Rightarrow> (spawn option \<times> (nat \<Rightarrow> rd)) list \<Rightarrow> server" where
  "main_loop e fs cycles = fold (main_cycle e) cycles (main_init fs)"

text \<open>The event that \<open>writef\<close> leaves in the trace.\<close>

definition wr :: "nat \<Rightarrow> string \<Rightarrow> event" where
  "wr k t = (if length t < BUF then Write k t else Overrun k (take (BUF - 1) t) (length t))"

subsection \<open>Control lines\<close>

text \<open>
  The bytes that survive the cut of the buffer at NUL, CR and LF (\<open>plain\<close>); a field of
  a control line, which is not empty and has no \<open>|\<close> (\<open>field\<close>); a field without a
  space (\<open>word\<close>).
\<close>

definition plain :: "string \<Rightarrow> bool" where
  "plain t \<longleftrightarrow> NUL \<notin> set t \<and> CR \<notin> set t \<and> LF \<notin> set t"

definition field :: "string \<Rightarrow> bool" where
  "field t \<longleftrightarrow> t \<noteq> [] \<and> plain t \<and> CHR ''|'' \<notin> set t"

definition word :: "string \<Rightarrow> bool" where
  "word t \<longleftrightarrow> field t \<and> CHR '' '' \<notin> set t"

subsection \<open>Reachable states\<close>

text \<open>
  The states in which the broker can find itself, also in the middle of the loop of
  \<open>handle_parent_messages\<close>: the state after any sequence of accepted connections and
  served slots, from the initial state.
\<close>

datatype step = Accept spawn | Serve nat rd

definition do_step :: "env_t \<Rightarrow> step \<Rightarrow> server \<Rightarrow> server" where
  "do_step e st s = (case st of Accept sp \<Rightarrow> accept_and_spawn sp s | Serve i r \<Rightarrow> service e i r s)"

definition run :: "env_t \<Rightarrow> (string \<rightharpoonup> string) \<Rightarrow> step list \<Rightarrow> server" where
  "run e fs steps = fold (do_step e) steps (main_init fs)"

subsection \<open>Notions used in the statements\<close>

text \<open>The slots that a broadcast to room \<open>r\<close> writes to, in the order of the loop.\<close>

definition receivers :: "string \<Rightarrow> client_t list \<Rightarrow> nat list" where
  "receivers r cs =
     filter (\<lambda>k. connected (cs ! k) \<and> (r = ''global'' \<or> room (cs ! k) = r)) [0..<length cs]"

text \<open>The slots that an appeal is forwarded to, in the order of the loop.\<close>

definition admins :: "client_t list \<Rightarrow> nat list" where
  "admins cs = filter (\<lambda>k. connected (cs ! k) \<and> is_admin (cs ! k)) [0..<length cs]"

text \<open>
  The tuple \<open>(name, password, action, args)\<close> that the ADMIN branch works with: the
  result of the parse, with the argument as the action branches look it up.
\<close>

definition admin_tuple :: "string \<Rightarrow> (string \<times> string \<times> string option \<times> string option) option" where
  "admin_tuple payload =
     (case admin_parse payload of
        None \<Rightarrow> None
      | Some (uname, password, action_word, action_args, save) \<Rightarrow>
          Some (uname, password, action_word, admin_arg action_args save))"

text \<open>
  The room table of \<open>s'\<close> extends that of \<open>s\<close> at its end, and not at all when the
  table of \<open>s\<close> is full.
\<close>

definition rooms_ext :: "server \<Rightarrow> server \<Rightarrow> bool" where
  "rooms_ext s s' \<longleftrightarrow>
     (\<exists>xs. rooms s' = rooms s @ xs \<and> (MAX_ROOMS \<le> length (rooms s) \<longrightarrow> xs = []))"

subsection \<open>Example states\<close>

text \<open>
  A small table for the concrete checks below: alice and bob in the lobby, root (an
  authenticated admin) in ops, a session that has not sent JOIN yet, and a free slot.
  The filter is not available (the text passes unchanged) and every log can be opened.
\<close>

definition env0 :: env_t where
  "env0 = \<lparr>filter_read = (\<lambda>_. None), open_append_ok = (\<lambda>_. True)\<rparr>"

definition client0 :: client_t where
  "client0 = \<lparr>username = [], room = [], connected = False, muted = False, is_admin = False\<rparr>"

definition st0 :: server where
  "st0 = \<lparr>clients =
            [client0\<lparr>username := ''alice'', room := ''lobby'', connected := True\<rparr>,
             client0\<lparr>username := ''bob'', room := ''lobby'', connected := True\<rparr>,
             client0\<lparr>username := ''root'', room := ''ops'', connected := True, is_admin := True\<rparr>,
             client0\<lparr>connected := True\<rparr>,
             client0],
          rooms = [''lobby'', ''ops''],
          last_appeal_msg = [[], [], [], [], []],
          files = Map.empty,
          out = [],
          console = []\<rparr>"

text \<open>A table of \<open>MAX_CLIENTS\<close> slots, all of them connected.\<close>

definition st_full :: server where
  "st_full = \<lparr>clients = replicate MAX_CLIENTS (client0\<lparr>connected := True\<rparr>),
              rooms = [''lobby''],
              last_appeal_msg = replicate MAX_CLIENTS [],
              files = Map.empty,
              out = [],
              console = []\<rparr>"

text \<open>The example table with a full room table: "lobby", "ops" and 126 further rooms.\<close>

definition st_rooms_full :: server where
  "st_rooms_full =
     st0\<lparr>rooms := ''lobby'' # ''ops'' # map (\<lambda>n. ''r'' @ dec n) [2..<MAX_ROOMS]\<rparr>"

text \<open>
  An environment whose filter answers: it returns its input with every "darn" masked.
\<close>

fun censor :: "string \<Rightarrow> string" where
  "censor [] = []"
| "censor (c # cs) =
     (if take 4 (c # cs) = ''darn'' then ''****'' @ censor (drop 3 cs) else c # censor cs)"

definition env1 :: env_t where
  "env1 = \<lparr>filter_read = (\<lambda>bs. Some (censor bs)), open_append_ok = (\<lambda>_. True)\<rparr>"

text \<open>Two connected sessions with the same name, both in the lobby, and an admin.\<close>

definition st_bobs :: server where
  "st_bobs = \<lparr>clients =
               [client0\<lparr>username := ''bob'', room := ''lobby'', connected := True\<rparr>,
                client0\<lparr>username := ''bob'', room := ''lobby'', connected := True\<rparr>,
                client0\<lparr>username := ''root'', room := ''ops'', connected := True, is_admin := True\<rparr>,
                client0],
              rooms = [''lobby'', ''ops''],
              last_appeal_msg = [[], [], [], []],
              files = Map.empty,
              out = [],
              console = []\<rparr>"

section \<open>Basic facts\<close>

lemma fold_keeps:
  assumes "\<And>x s. g (f x s) = g s"
  shows "g (fold f xs s) = g s"
  using assms by (induction xs arbitrary: s) simp_all

lemma writef_simps [simp]:
  "clients (writef k t s) = clients s"
  "rooms (writef k t s) = rooms s"
  "last_appeal_msg (writef k t s) = last_appeal_msg s"
  "files (writef k t s) = files s"
  "console (writef k t s) = console s"
  by (simp_all add: writef_def)

lemma writef_fits: "length t < BUF \<Longrightarrow> writef k t s = s\<lparr>out := out s @ [Write k t]\<rparr>"
  by (simp add: writef_def)

lemma fold_writes:
  "fold (\<lambda>k st. if P (clients st ! k) then writef k t st else st) ks s =
     s\<lparr>out := out s @ map (\<lambda>k. wr k t) (filter (\<lambda>k. P (clients s ! k)) ks)\<rparr>"
  by (induction ks arbitrary: s) (simp_all add: writef_def wr_def)

lemma write_all_eq:
  "write_all P t s =
     s\<lparr>out := out s @ map (\<lambda>k. wr k t) (filter (\<lambda>k. P (clients s ! k)) [0..<length (clients s)])\<rparr>"
  by (simp add: write_all_def fold_writes)

lemma first_index_Some_iff:
  "first_index P xs = Some i \<longleftrightarrow> i < length xs \<and> P (xs ! i) \<and> (\<forall>j<i. \<not> P (xs ! j))"
proof (induction xs arbitrary: i)
  case Nil
  then show ?case by simp
next
  case (Cons x xs)
  show ?case
  proof (cases "P x")
    case True
    then show ?thesis by (cases i) auto
  next
    case False
    show ?thesis
    proof (cases i)
      case 0
      with False show ?thesis by simp
    next
      case (Suc n)
      with False Cons.IH [of n] show ?thesis
        by (auto simp: less_Suc_eq_0_disj)
    qed
  qed
qed

lemma first_index_None_iff: "first_index P xs = None \<longleftrightarrow> (\<forall>x\<in>set xs. \<not> P x)"
  by (induction xs) auto

lemma takeWhile_until: "d \<notin> set t \<Longrightarrow> takeWhile (\<lambda>c. c \<noteq> d) (t @ d # rest) = t"
  by (induction t) auto

lemma dropWhile_until: "d \<notin> set t \<Longrightarrow> dropWhile (\<lambda>c. c \<noteq> d) (t @ d # rest) = d # rest"
  by (induction t) auto

lemma takeWhile_whole: "d \<notin> set t \<Longrightarrow> takeWhile (\<lambda>c. c \<noteq> d) t = t"
  by (induction t) auto

lemma dropWhile_whole: "d \<notin> set t \<Longrightarrow> dropWhile (\<lambda>c. c \<noteq> d) t = []"
  by (induction t) auto

lemma strtok_r_field:
  assumes "t \<noteq> []" "d \<notin> set t"
  shows "strtok_r (t @ d # rest) [d] = (Some t, rest)"
proof -
  have a: "dropWhile (\<lambda>c. c = d) (t @ d # rest) = t @ d # rest"
    using assms by (cases t) auto
  show ?thesis
    using assms by (simp add: strtok_r_def a takeWhile_until dropWhile_until)
qed

lemma strtok_r_last:
  assumes "t \<noteq> []" "d \<notin> set t"
  shows "strtok_r t [d] = (Some t, [])"
proof -
  have a: "dropWhile (\<lambda>c. c = d) t = t"
    using assms by (cases t) auto
  show ?thesis
    using assms by (simp add: strtok_r_def a takeWhile_whole dropWhile_whole)
qed

lemma clients_write_all [simp]: "clients (write_all P t s) = clients s"
  by (simp add: write_all_eq)

lemma clients_add_room [simp]: "clients (add_room_if_missing r s) = clients s"
  by (simp add: add_room_if_missing_def)

lemma clients_append_log [simp]: "clients (append_room_log e r m s) = clients s"
  by (simp add: append_room_log_def)

lemma clients_broadcast [simp]: "clients (broadcast_to_room e r f m s) = clients s"
  by (simp add: broadcast_to_room_def Let_def)

lemma map_flag_update:
  assumes "f c = f (cs ! k)"
  shows "map f (cs[k := c]) = map f cs"
proof (cases "k < length cs")
  case True
  with assms show ?thesis by (simp add: map_update list_update_same_conv)
next
  case False
  then show ?thesis by (simp add: list_update_beyond)
qed

lemma admin_action_is_admin:
  "map is_admin (clients (admin_action e i w aa sv s)) = map is_admin (clients s)"
  unfolding admin_action_def
  by (simp add: close_client_def fold_keeps map_flag_update split: option.splits)

section \<open>Admin authentication\<close>

text \<open>
  Claim C1. For every ADMIN command that supplies a password (the parse of the payload
  does not end in "Admin malformed"): when the password differs from \<open>ADMIN_PASSWORD\<close>
  the only effect is the reply "Admin auth failed" to the requesting session, and no
  other part of the state changes, so its \<open>is_admin\<close> flag is not set; when the password
  equals \<open>ADMIN_PASSWORD\<close> the requesting session's \<open>is_admin\<close> flag is true afterwards,
  whatever action follows, and when no action word follows, the grant and the reply
  "Admin: no action" are the whole effect.
\<close>

theorem admin_auth:
  assumes cmd: "strtok_r (trim_newline (cstr buf)) ''|'' = (Some ''ADMIN'', save)"
      and parse: "admin_parse save = Some (name, password, action_word, action_args, save')"
      and i: "i < length (clients s)"
  shows "(password \<noteq> ADMIN_PASSWORD \<longrightarrow>
            dispatch e i buf s = s\<lparr>out := out s @ [Write i (''Admin auth failed'' @ [LF])]\<rparr>) \<and>
         (password = ADMIN_PASSWORD \<longrightarrow> is_admin (clients (dispatch e i buf s) ! i)) \<and>
         (password = ADMIN_PASSWORD \<and> action_word = None \<longrightarrow>
            dispatch e i buf s =
              s\<lparr>clients := (clients s)[i := (clients s ! i)\<lparr>is_admin := True\<rparr>],
                out := out s @ [Write i (''Admin: no action'' @ [LF])]\<rparr>)"
proof -
  have d: "dispatch e i buf s = cmd_ADMIN e i save s"
    by (simp add: dispatch_def cmd)
  let ?s1 = "s\<lparr>clients := (clients s)[i := (clients s ! i)\<lparr>is_admin := True\<rparr>]\<rparr>"
  have a: "password \<noteq> ADMIN_PASSWORD \<Longrightarrow>
      cmd_ADMIN e i save s = s\<lparr>out := out s @ [Write i (''Admin auth failed'' @ [LF])]\<rparr>"
    by (simp add: cmd_ADMIN_def parse writef_def BUF_def)
  have c: "password = ADMIN_PASSWORD \<Longrightarrow> action_word = None \<Longrightarrow>
      cmd_ADMIN e i save s = ?s1\<lparr>out := out s @ [Write i (''Admin: no action'' @ [LF])]\<rparr>"
    by (simp add: cmd_ADMIN_def parse writef_def BUF_def)
  have b: "is_admin (clients (cmd_ADMIN e i save s) ! i)" if pw: "password = ADMIN_PASSWORD"
  proof -
    have m: "map is_admin (clients (cmd_ADMIN e i save s)) = map is_admin (clients ?s1)"
      using pw by (simp add: cmd_ADMIN_def parse Let_def admin_action_is_admin split: option.splits)
    have "length (clients (cmd_ADMIN e i save s)) = length (clients ?s1)"
      using m by (rule map_eq_imp_length_eq)
    then have len: "i < length (clients (cmd_ADMIN e i save s))"
      using i by simp
    have "is_admin (clients (cmd_ADMIN e i save s) ! i) =
            map is_admin (clients (cmd_ADMIN e i save s)) ! i"
      using len by simp
    also have "\<dots> = map is_admin (clients ?s1) ! i"
      by (simp only: m)
    also have "\<dots> = True"
      using i by simp
    finally show ?thesis by simp
  qed
  show ?thesis using a b c d by simp
qed

theorem admin_auth_witness:
  "dispatch env0 1 (''ADMIN|bob|letmein KICK alice'' @ [LF]) st0 =
     st0\<lparr>out := out st0 @ [Write 1 (''Admin auth failed'' @ [LF])]\<rparr> \<and>
   is_admin (clients (dispatch env0 1 (''ADMIN|bob|admin123'' @ [LF]) st0) ! 1) \<and>
   dispatch env0 1 (''ADMIN|bob|admin123'' @ [LF]) st0 =
     st0\<lparr>clients := (clients st0)[1 := (clients st0 ! 1)\<lparr>is_admin := True\<rparr>],
         out := out st0 @ [Write 1 (''Admin: no action'' @ [LF])]\<rparr>"
proof -
  have i: "1 < length (clients st0)"
    by (simp add: st0_def)
  have c1: "strtok_r (trim_newline (cstr (''ADMIN|bob|letmein KICK alice'' @ [LF]))) ''|'' =
              (Some ''ADMIN'', ''bob|letmein KICK alice'')"
    by (simp add: strtok_r_def trim_newline_def cstr_def)
  have p1: "admin_parse ''bob|letmein KICK alice'' =
              Some (''bob'', ''letmein'', Some ''KICK'', Some ''alice'', [])"
    by (simp add: admin_parse_def strtok_r_def split_space_def)
  have c2: "strtok_r (trim_newline (cstr (''ADMIN|bob|admin123'' @ [LF]))) ''|'' =
              (Some ''ADMIN'', ''bob|admin123'')"
    by (simp add: strtok_r_def trim_newline_def cstr_def)
  have p2: "admin_parse ''bob|admin123'' = Some (''bob'', ''admin123'', None, None, [])"
    by (simp add: admin_parse_def strtok_r_def split_space_def)
  have w: "''letmein'' \<noteq> ADMIN_PASSWORD" and r: "''admin123'' = ADMIN_PASSWORD"
    by (simp_all add: ADMIN_PASSWORD_def)
  from admin_auth [OF c1 p1 i, of env0] w
  have a1: "dispatch env0 1 (''ADMIN|bob|letmein KICK alice'' @ [LF]) st0 =
              st0\<lparr>out := out st0 @ [Write 1 (''Admin auth failed'' @ [LF])]\<rparr>"
    by blast
  from admin_auth [OF c2 p2 i, of env0] r
  have a2: "is_admin (clients (dispatch env0 1 (''ADMIN|bob|admin123'' @ [LF]) st0) ! 1)"
    and a3: "dispatch env0 1 (''ADMIN|bob|admin123'' @ [LF]) st0 =
               st0\<lparr>clients := (clients st0)[1 := (clients st0 ! 1)\<lparr>is_admin := True\<rparr>],
                   out := out st0 @ [Write 1 (''Admin: no action'' @ [LF])]\<rparr>"
    by blast+
  show ?thesis
    using a1 a2 a3 by blast
qed

section \<open>Control lines\<close>

lemma cstr_plain: "plain t \<Longrightarrow> cstr (t @ [LF]) = t @ [LF]"
  unfolding cstr_def plain_def by (induction t) auto

lemma trim_plain: "plain t \<Longrightarrow> trim_newline (t @ [LF]) = t"
  unfolding trim_newline_def plain_def by (induction t) auto

lemma line_of_buf: "plain t \<Longrightarrow> trim_newline (cstr (t @ [LF])) = t"
  by (simp add: cstr_plain trim_plain)

lemma plain_append [simp]: "plain (a @ b) \<longleftrightarrow> plain a \<and> plain b"
  by (auto simp: plain_def)

lemma plain_Cons [simp]: "plain (c # t) \<longleftrightarrow> c \<noteq> NUL \<and> c \<noteq> CR \<and> c \<noteq> LF \<and> plain t"
  by (auto simp: plain_def)

lemma plain_Nil [simp]: "plain []"
  by (simp add: plain_def)

lemma field_plain: "field t \<Longrightarrow> plain t"
  by (simp add: field_def)

lemma tok_field: "field t \<Longrightarrow> strtok_r (t @ CHR ''|'' # rest) ''|'' = (Some t, rest)"
  by (simp add: field_def strtok_r_field)

lemma tok_last: "field t \<Longrightarrow> strtok_r t ''|'' = (Some t, [])"
  by (simp add: field_def strtok_r_last)

section \<open>Broadcast\<close>

lemma add_room_simps [simp]:
  "last_appeal_msg (add_room_if_missing r s) = last_appeal_msg s"
  "files (add_room_if_missing r s) = files s"
  "out (add_room_if_missing r s) = out s"
  "console (add_room_if_missing r s) = console s"
  by (simp_all add: add_room_if_missing_def)

lemma append_log_simps [simp]:
  "rooms (append_room_log e r m s) = rooms s"
  "last_appeal_msg (append_room_log e r m s) = last_appeal_msg s"
  "out (append_room_log e r m s) = out s"
  "console (append_room_log e r m s) = console s"
  by (simp_all add: append_room_log_def)

lemma broadcast_to_room_eq:
  "broadcast_to_room e r sender msg s =
     (append_room_log e r
        (take (BUF - 1) (''['' @ r @ ''] '' @ sender @ '': '' @ run_filter_and_get_output e msg))
        (add_room_if_missing r s))
     \<lparr>out := out s @
        map (\<lambda>k. wr k (take (BUF - 1) (''['' @ r @ ''] '' @ sender @ '': '' @
                        run_filter_and_get_output e msg) @ [LF]))
          (receivers r (clients s))\<rparr>"
  by (cases "r = ''global''")
     (simp_all add: broadcast_to_room_def Let_def write_all_eq receivers_def)

lemma wr_fits: "length t < BUF \<Longrightarrow> wr k t = Write k t"
  by (simp add: wr_def)

lemma receivers_flag_update:
  assumes "connected c = connected (cs ! i)" "room c = room (cs ! i)"
  shows "receivers r (cs[i := c]) = receivers r cs"
proof -
  have "connected (cs[i := c] ! k) = connected (cs ! k) \<and> room (cs[i := c] ! k) = room (cs ! k)"
    if "k < length cs" for k
    using that assms by (cases "k = i") simp_all
  then show ?thesis
    unfolding receivers_def by (auto intro: filter_cong)
qed

text \<open>
  Claim C4. A broadcast to the room "global" writes its line once to every connected
  session, whatever room the session is in; a broadcast to any other room writes it
  once to the connected sessions whose room is that room, and to no other. The admin
  action BROADCAST, after the password was accepted, is the broadcast of
  "[global] admin: <text>" to "global", where the text has passed the filter (which
  returns it unchanged when the filter is not available). The line is the one that
  fits the buffer of \<open>BUF\<close> bytes.
\<close>

theorem broadcast_global_reaches_all:
  assumes fit: "length (''['' @ r @ ''] '' @ sender @ '': '' @ run_filter_and_get_output e msg) + 1 < BUF"
  shows "(r = ''global'' \<longrightarrow>
            out (broadcast_to_room e r sender msg s) =
              out s @ map (\<lambda>k. Write k (''[global] '' @ sender @ '': '' @
                                        run_filter_and_get_output e msg @ [LF]))
                        (filter (\<lambda>k. connected (clients s ! k)) [0..<length (clients s)])) \<and>
         (r \<noteq> ''global'' \<longrightarrow>
            out (broadcast_to_room e r sender msg s) =
              out s @ map (\<lambda>k. Write k (''['' @ r @ ''] '' @ sender @ '': '' @
                                        run_filter_and_get_output e msg @ [LF]))
                        (filter (\<lambda>k. connected (clients s ! k) \<and> room (clients s ! k) = r)
                           [0..<length (clients s)])) \<and>
         (r = ''global'' \<and> sender = ''admin'' \<and>
          strtok_r (trim_newline (cstr buf)) ''|'' = (Some ''ADMIN'', save) \<and>
          admin_parse save = Some (name, ADMIN_PASSWORD, Some ''BROADCAST'', aa, sv) \<and>
          admin_arg aa sv = Some msg \<longrightarrow>
            out (dispatch e i buf s) =
              out s @ map (\<lambda>k. Write k (''[global] admin: '' @
                                        run_filter_and_get_output e msg @ [LF]))
                        (filter (\<lambda>k. connected (clients s ! k)) [0..<length (clients s)]))"
proof -
  let ?l = "''['' @ r @ ''] '' @ sender @ '': '' @ run_filter_and_get_output e msg"
  have t: "take (BUF - 1) ?l = ?l"
    using fit by simp
  have w: "wr k (?l @ [LF]) = Write k (?l @ [LF])" for k
    using fit by (simp add: wr_fits)
  have o: "out (broadcast_to_room e r sender msg s') =
             out s' @ map (\<lambda>k. Write k (?l @ [LF])) (receivers r (clients s'))" for s'
    by (simp only: broadcast_to_room_eq t w) simp
  have g: "receivers ''global'' cs = filter (\<lambda>k. connected (cs ! k)) [0..<length cs]" for cs
    by (simp add: receivers_def)
  have a: "out (dispatch e i buf s) =
             out s @ map (\<lambda>k. Write k (?l @ [LF])) (receivers r (clients s))"
    if "r = ''global''" "sender = ''admin''"
      and "strtok_r (trim_newline (cstr buf)) ''|'' = (Some ''ADMIN'', save)"
      and "admin_parse save = Some (name, ADMIN_PASSWORD, Some ''BROADCAST'', aa, sv)"
      and "admin_arg aa sv = Some msg"
  proof -
    let ?s1 = "s\<lparr>clients := (clients s)[i := (clients s ! i)\<lparr>is_admin := True\<rparr>]\<rparr>"
    have "dispatch e i buf s = broadcast_to_room e r sender msg ?s1"
      using that by (simp add: dispatch_def cmd_ADMIN_def admin_action_def Let_def)
    then have "out (dispatch e i buf s) =
                 out ?s1 @ map (\<lambda>k. Write k (?l @ [LF])) (receivers r (clients ?s1))"
      by (simp only: o)
    then show ?thesis
      by (simp add: receivers_flag_update)
  qed
  show ?thesis
  proof (intro conjI impI)
    assume "r = ''global''"
    then show "out (broadcast_to_room e r sender msg s) =
              out s @ map (\<lambda>k. Write k (''[global] '' @ sender @ '': '' @
                                        run_filter_and_get_output e msg @ [LF]))
                        (filter (\<lambda>k. connected (clients s ! k)) [0..<length (clients s)])"
      using o [of s] g by simp
  next
    assume "r \<noteq> ''global''"
    then show "out (broadcast_to_room e r sender msg s) =
              out s @ map (\<lambda>k. Write k (''['' @ r @ ''] '' @ sender @ '': '' @
                                        run_filter_and_get_output e msg @ [LF]))
                        (filter (\<lambda>k. connected (clients s ! k) \<and> room (clients s ! k) = r)
                           [0..<length (clients s)])"
      using o [of s] by (simp add: receivers_def)
  next
    assume "r = ''global'' \<and> sender = ''admin'' \<and>
          strtok_r (trim_newline (cstr buf)) ''|'' = (Some ''ADMIN'', save) \<and>
          admin_parse save = Some (name, ADMIN_PASSWORD, Some ''BROADCAST'', aa, sv) \<and>
          admin_arg aa sv = Some msg"
    then show "out (dispatch e i buf s) =
              out s @ map (\<lambda>k. Write k (''[global] admin: '' @
                                        run_filter_and_get_output e msg @ [LF]))
                        (filter (\<lambda>k. connected (clients s ! k)) [0..<length (clients s)])"
      using a g by simp
  qed
qed

theorem broadcast_global_reaches_all_witness:
  "out (dispatch env0 2 (''ADMIN|root|admin123 BROADCAST hi'' @ [LF]) st0) =
     [Write 0 (''[global] admin: hi'' @ [LF]), Write 1 (''[global] admin: hi'' @ [LF]),
      Write 2 (''[global] admin: hi'' @ [LF]), Write 3 (''[global] admin: hi'' @ [LF])] \<and>
   out (broadcast_to_room env0 ''global'' ''admin'' ''hi'' st0) =
     [Write 0 (''[global] admin: hi'' @ [LF]), Write 1 (''[global] admin: hi'' @ [LF]),
      Write 2 (''[global] admin: hi'' @ [LF]), Write 3 (''[global] admin: hi'' @ [LF])] \<and>
   out (broadcast_to_room env0 ''lobby'' ''alice'' ''hello'' st0) =
     [Write 0 (''[lobby] alice: hello'' @ [LF]), Write 1 (''[lobby] alice: hello'' @ [LF])]"
proof -
  have f: "run_filter_and_get_output env0 m = m" for m
    by (simp add: run_filter_and_get_output_def env0_def)
  have fit1: "length (''['' @ ''global'' @ ''] '' @ ''admin'' @ '': '' @
                run_filter_and_get_output env0 ''hi'') + 1 < BUF"
    by (simp add: f BUF_def)
  have fit2: "length (''['' @ ''lobby'' @ ''] '' @ ''alice'' @ '': '' @
                run_filter_and_get_output env0 ''hello'') + 1 < BUF"
    by (simp add: f BUF_def)
  have c: "strtok_r (trim_newline (cstr (''ADMIN|root|admin123 BROADCAST hi'' @ [LF]))) ''|'' =
             (Some ''ADMIN'', ''root|admin123 BROADCAST hi'')"
    by (simp add: strtok_r_def trim_newline_def cstr_def)
  have p: "admin_parse ''root|admin123 BROADCAST hi'' =
             Some (''root'', ADMIN_PASSWORD, Some ''BROADCAST'', Some ''hi'', [])"
    by (simp add: admin_parse_def strtok_r_def split_space_def ADMIN_PASSWORD_def)
  have a: "admin_arg (Some ''hi'') [] = Some ''hi''"
    by (simp add: admin_arg_def)
  have idx: "[0..<length (clients st0)] = [0, 1, 2, 3, 4]"
    by (simp add: st0_def upt_rec)
  have n: "''lobby'' \<noteq> ''global''"
    by simp
  from broadcast_global_reaches_all [OF fit1, where s = st0 and i = 2
      and buf = "''ADMIN|root|admin123 BROADCAST hi'' @ [LF]"
      and save = "''root|admin123 BROADCAST hi''" and name = "''root''"
      and aa = "Some ''hi''" and sv = "[]"] c p a
  have g: "out (broadcast_to_room env0 ''global'' ''admin'' ''hi'' st0) =
             out st0 @ map (\<lambda>k. Write k (''[global] admin: '' @
                                        run_filter_and_get_output env0 ''hi'' @ [LF]))
                        (filter (\<lambda>k. connected (clients st0 ! k)) [0..<length (clients st0)])"
    and d: "out (dispatch env0 2 (''ADMIN|root|admin123 BROADCAST hi'' @ [LF]) st0) =
             out st0 @ map (\<lambda>k. Write k (''[global] admin: '' @
                                        run_filter_and_get_output env0 ''hi'' @ [LF]))
                        (filter (\<lambda>k. connected (clients st0 ! k)) [0..<length (clients st0)])"
    by simp_all
  from broadcast_global_reaches_all [OF fit2, where s = st0] n
  have l: "out (broadcast_to_room env0 ''lobby'' ''alice'' ''hello'' st0) =
             out st0 @ map (\<lambda>k. Write k (''[lobby] alice: '' @
                                        run_filter_and_get_output env0 ''hello'' @ [LF]))
                        (filter (\<lambda>k. connected (clients st0 ! k) \<and> room (clients st0 ! k) = ''lobby'')
                           [0..<length (clients st0)])"
    by simp
  show ?thesis
    unfolding g d l idx f by (simp add: st0_def client0_def)
qed

section \<open>Mute and unmute\<close>

lemma first_index_map:
  "map P xs = map Q ys \<Longrightarrow> first_index P xs = first_index Q ys"
proof (induction xs arbitrary: ys)
  case Nil
  then show ?case by simp
next
  case (Cons x xs)
  then obtain y ys' where ys: "ys = y # ys'" by (cases ys) auto
  with Cons.prems have "P x = Q y" "map P xs = map Q ys'" by simp_all
  with Cons.IH [of ys'] ys show ?case by simp
qed

lemma find_client_flag_update:
  assumes "connected c = connected (cs ! k)" "username c = username (cs ! k)"
  shows "find_client_by_name (cs[k := c]) u = find_client_by_name cs u"
proof -
  have "map (\<lambda>c. connected c \<and> username c = u) (cs[k := c]) =
        map (\<lambda>c. connected c \<and> username c = u) cs"
    using assms by (intro map_flag_update) simp
  then show ?thesis
    unfolding find_client_by_name_def by (rule first_index_map)
qed

lemma find_client_by_name_less:
  "find_client_by_name cs u = Some j \<Longrightarrow> j < length cs"
  by (simp add: find_client_by_name_def first_index_Some_iff)

lemma dispatch_MSG:
  assumes "field nm" "field r" "field m"
  shows "dispatch e i (''MSG|'' @ nm @ ''|'' @ r @ ''|'' @ m @ [LF]) s =
           (if muted (clients s ! i) then writef i (''You are muted.'' @ [LF]) s
            else broadcast_to_room e r nm m s)"
proof -
  have p: "plain (''MSG|'' @ nm @ ''|'' @ r @ ''|'' @ m)"
    using assms by (simp add: field_def)
  have l: "trim_newline (cstr (''MSG|'' @ nm @ ''|'' @ r @ ''|'' @ m @ [LF])) =
             ''MSG|'' @ nm @ ''|'' @ r @ ''|'' @ m"
    using line_of_buf [OF p] by simp
  have c: "strtok_r (''MSG|'' @ nm @ ''|'' @ r @ ''|'' @ m) ''|'' =
             (Some ''MSG'', nm @ ''|'' @ r @ ''|'' @ m)"
    using tok_field [of "''MSG''"] by (simp add: field_def)
  have t1: "strtok_r (nm @ CHR ''|'' # r @ CHR ''|'' # m) ''|'' = (Some nm, r @ CHR ''|'' # m)"
    by (rule tok_field [OF assms(1)])
  have t2: "strtok_r (r @ CHR ''|'' # m) ''|'' = (Some r, m)"
    by (rule tok_field [OF assms(2)])
  have t3: "strtok_r m ''|'' = (Some m, [])"
    by (rule tok_last [OF assms(3)])
  show ?thesis
    unfolding dispatch_def l c by (simp add: cmd_MSG_def t1 t2 t3)
qed

lemma admin_dispatch:
  assumes "strtok_r (trim_newline (cstr buf)) ''|'' = (Some ''ADMIN'', save)"
      and "admin_parse save = Some (name, ADMIN_PASSWORD, Some w, aa, sv)"
  shows "dispatch e i buf s =
           admin_action e i w aa sv
             (s\<lparr>clients := (clients s)[i := (clients s ! i)\<lparr>is_admin := True\<rparr>]\<rparr>)"
  using assms by (simp add: dispatch_def cmd_ADMIN_def Let_def)

lemma admin_set_muted:
  assumes "strtok_r (trim_newline (cstr buf)) ''|'' = (Some ''ADMIN'', save)"
      and "admin_parse save = Some (name, ADMIN_PASSWORD, Some w, aa, sv)"
      and "admin_arg aa sv = Some u"
      and "find_client_by_name (clients s) u = Some j"
      and "w = ''MUTE'' \<and> b \<or> w = ''UNMUTE'' \<and> \<not> b"
  shows "dispatch e i buf s =
           s\<lparr>clients := ((clients s)[i := (clients s ! i)\<lparr>is_admin := True\<rparr>])
                          [j := ((clients s)[i := (clients s ! i)\<lparr>is_admin := True\<rparr>] ! j)
                                  \<lparr>muted := b\<rparr>],
             out := out s @ [Write j ((if b then ''You are muted by admin''
                                       else ''You are unmuted by admin'') @ [LF])]\<rparr>"
proof -
  let ?cs = "(clients s)[i := (clients s ! i)\<lparr>is_admin := True\<rparr>]"
  have f: "find_client_by_name ?cs u = Some j"
    using assms(4) by (simp add: find_client_flag_update)
  show ?thesis
    using assms(3,5) f
    by (auto simp: admin_dispatch [OF assms(1,2)] admin_action_def writef_def BUF_def)
qed

lemma mute_unmute_sequence:
  fixes s :: server and a a' :: nat
  assumes resolves: "find_client_by_name (clients s) u = Some j"
      and mute: "strtok_r (trim_newline (cstr mute)) ''|'' = (Some ''ADMIN'', save)"
                "admin_parse save = Some (an, ADMIN_PASSWORD, Some ''MUTE'', aa, sv)"
                "admin_arg aa sv = Some u"
      and unmute: "strtok_r (trim_newline (cstr unmute)) ''|'' = (Some ''ADMIN'', save')"
                "admin_parse save' = Some (an', ADMIN_PASSWORD, Some ''UNMUTE'', aa', sv')"
                "admin_arg aa' sv' = Some u"
      and fields: "field nm" "field r" "field m"
      and fit: "length (''['' @ r @ ''] '' @ nm @ '': '' @ run_filter_and_get_output e m) + 1 < BUF"
      and opens: "open_append_ok e (log_path r)"
  defines "msg \<equiv> ''MSG|'' @ nm @ ''|'' @ r @ ''|'' @ m @ [LF]"
      and "line \<equiv> ''['' @ r @ ''] '' @ nm @ '': '' @ run_filter_and_get_output e m"
  defines "s1 \<equiv> dispatch e a mute s"
  defines "s2 \<equiv> dispatch e j msg s1"
  defines "s3 \<equiv> dispatch e a' unmute s2"
  defines "s4 \<equiv> dispatch e j msg s3"
  shows "s2 = s1\<lparr>out := out s1 @ [Write j (''You are muted.'' @ [LF])]\<rparr> \<and>
         out s4 = out s3 @ map (\<lambda>k. Write k (line @ [LF])) (receivers r (clients s)) \<and>
         files s4 = (files s3)(log_path r \<mapsto>
                      (case files s3 (log_path r) of None \<Rightarrow> [] | Some old \<Rightarrow> old) @ line @ [LF])"
proof -
  have j: "j < length (clients s)"
    using resolves by (rule find_client_by_name_less)
  let ?c1 = "(clients s)[a := (clients s ! a)\<lparr>is_admin := True\<rparr>]"
  have s1: "s1 = s\<lparr>clients := ?c1[j := (?c1 ! j)\<lparr>muted := True\<rparr>],
                   out := out s @ [Write j (''You are muted by admin'' @ [LF])]\<rparr>"
    unfolding s1_def using admin_set_muted [OF mute resolves, of True] by simp
  have m1: "muted (clients s1 ! j)"
    using j by (simp add: s1)
  have s2: "s2 = s1\<lparr>out := out s1 @ [Write j (''You are muted.'' @ [LF])]\<rparr>"
    unfolding s2_def msg_def dispatch_MSG [OF fields] using m1
    by (simp add: writef_def BUF_def)
  have r1: "find_client_by_name (clients s1) u = Some j"
    using resolves by (simp add: s1 find_client_flag_update)
  then have r2: "find_client_by_name (clients s2) u = Some j"
    by (simp add: s2)
  let ?c3 = "(clients s2)[a' := (clients s2 ! a')\<lparr>is_admin := True\<rparr>]"
  have s3: "s3 = s2\<lparr>clients := ?c3[j := (?c3 ! j)\<lparr>muted := False\<rparr>],
                    out := out s2 @ [Write j (''You are unmuted by admin'' @ [LF])]\<rparr>"
    unfolding s3_def using admin_set_muted [OF unmute r2, of False] by simp
  have l2: "length (clients s2) = length (clients s)"
    by (simp add: s2 s1)
  have m3: "\<not> muted (clients s3 ! j)"
    using j l2 by (simp add: s3)
  have s4: "s4 = broadcast_to_room e r nm m s3"
    unfolding s4_def msg_def dispatch_MSG [OF fields] using m3 by simp
  have t: "take (BUF - 1) line = line"
    using fit by (simp add: line_def)
  have w: "wr k (line @ [LF]) = Write k (line @ [LF])" for k
    using fit by (simp add: wr_fits line_def)
  have rc: "receivers r (clients s3) = receivers r (clients s)"
    by (simp add: s3 s2 s1 receivers_flag_update)
  have b: "s4 = (append_room_log e r line (add_room_if_missing r s3))
                \<lparr>out := out s3 @ map (\<lambda>k. Write k (line @ [LF])) (receivers r (clients s))\<rparr>"
    unfolding s4 broadcast_to_room_eq
    using t w rc by (simp add: line_def)
  have o: "out s4 = out s3 @ map (\<lambda>k. Write k (line @ [LF])) (receivers r (clients s))"
    by (simp add: b)
  have f: "files s4 = (files s3)(log_path r \<mapsto>
                      (case files s3 (log_path r) of None \<Rightarrow> [] | Some old \<Rightarrow> old) @ line @ [LF])"
    using opens by (simp add: b append_room_log_def)
  show ?thesis
    using s2 o f by simp
qed

lemma run_filter_answer:
  assumes "filter_read e (m @ [LF]) = Some bs \<and> bs \<noteq> [] \<and>
             clean = trim_newline (cstr (take (BUF - 1) bs)) \<or>
           (filter_read e (m @ [LF]) = None \<or> filter_read e (m @ [LF]) = Some []) \<and> clean = m"
  shows "run_filter_and_get_output e m = clean"
  using assms by (auto simp: run_filter_and_get_output_def)

text \<open>
  The claim as stated (C3) fails for a session that is not the first connected one
  with its name. Sessions 0 and 1 are both named bob: the admin's MUTE bob mutes
  session 0 only, and a MSG from session 1 is logged and broadcast to the lobby as
  before, with no "You are muted." reply.
\<close>

theorem mute_same_name_counterexample:
  "connected (clients st_bobs ! 1) \<and> username (clients st_bobs ! 1) = ''bob'' \<and>
   out (dispatch env0 1 (''MSG|bob|lobby|hi'' @ [LF])
          (dispatch env0 2 (''ADMIN|root|admin123 MUTE bob'' @ [LF]) st_bobs)) =
     [Write 0 (''You are muted by admin'' @ [LF]),
      Write 0 (''[lobby] bob: hi'' @ [LF]),
      Write 1 (''[lobby] bob: hi'' @ [LF])] \<and>
   files (dispatch env0 1 (''MSG|bob|lobby|hi'' @ [LF])
          (dispatch env0 2 (''ADMIN|root|admin123 MUTE bob'' @ [LF]) st_bobs))
     ''logs/lobby.log'' = Some (''[lobby] bob: hi'' @ [LF])"
proof -
  let ?s1 = "dispatch env0 2 (''ADMIN|root|admin123 MUTE bob'' @ [LF]) st_bobs"
  have m1: "strtok_r (trim_newline (cstr (''ADMIN|root|admin123 MUTE bob'' @ [LF]))) ''|'' =
              (Some ''ADMIN'', ''root|admin123 MUTE bob'')"
    by (simp add: strtok_r_def trim_newline_def cstr_def)
  have m2: "admin_parse ''root|admin123 MUTE bob'' =
              Some (''root'', ADMIN_PASSWORD, Some ''MUTE'', Some ''bob'', [])"
    by (simp add: admin_parse_def strtok_r_def split_space_def ADMIN_PASSWORD_def)
  have m3: "admin_arg (Some ''bob'') [] = Some ''bob''"
    by (simp add: admin_arg_def)
  have first: "find_client_by_name (clients st_bobs) ''bob'' = Some 0"
    by (simp add: find_client_by_name_def st_bobs_def client0_def)
  have s1: "?s1 = st_bobs
      \<lparr>clients := ((clients st_bobs)[2 := (clients st_bobs ! 2)\<lparr>is_admin := True\<rparr>])
                    [0 := ((clients st_bobs)[2 := (clients st_bobs ! 2)\<lparr>is_admin := True\<rparr>] ! 0)
                            \<lparr>muted := True\<rparr>],
        out := out st_bobs @ [Write 0 (''You are muted by admin'' @ [LF])]\<rparr>"
    using admin_set_muted [OF m1 m2 m3 first, where b = True and e = env0 and i = 2] by simp
  have f: "field ''bob''" "field ''lobby''" "field ''hi''"
    by (simp_all add: field_def)
  have nm: "\<not> muted (clients ?s1 ! 1)"
    unfolding s1 by (simp add: st_bobs_def client0_def)
  have d: "dispatch env0 1 (''MSG|bob|lobby|hi'' @ [LF]) ?s1 =
             broadcast_to_room env0 ''lobby'' ''bob'' ''hi'' ?s1"
    using dispatch_MSG [OF f, of env0 1 ?s1] nm by simp
  have rc: "receivers ''lobby'' (clients ?s1) = [0, 1]"
    unfolding s1 by (simp add: receivers_def st_bobs_def client0_def upt_rec)
  have o1: "out ?s1 = [Write 0 (''You are muted by admin'' @ [LF])]"
    and f1: "files ?s1 = Map.empty"
    unfolding s1 by (simp_all add: st_bobs_def)
  have rf: "run_filter_and_get_output env0 x = x" for x
    by (simp add: run_filter_and_get_output_def env0_def)
  have op: "open_append_ok env0 p" for p
    by (simp add: env0_def)
  have o: "out (broadcast_to_room env0 ''lobby'' ''bob'' ''hi'' ?s1) =
     [Write 0 (''You are muted by admin'' @ [LF]),
      Write 0 (''[lobby] bob: hi'' @ [LF]),
      Write 1 (''[lobby] bob: hi'' @ [LF])]"
    unfolding broadcast_to_room_eq rc using o1
    by (simp add: rf wr_def BUF_def)
  have l: "files (broadcast_to_room env0 ''lobby'' ''bob'' ''hi'' ?s1) ''logs/lobby.log'' =
     Some (''[lobby] bob: hi'' @ [LF])"
    unfolding broadcast_to_room_eq using f1
    by (simp add: append_room_log_def op rf BUF_def log_path_def LOGDIR_def)
  have u: "connected (clients st_bobs ! 1) \<and> username (clients st_bobs ! 1) = ''bob''"
    by (simp add: st_bobs_def client0_def)
  show ?thesis
    unfolding d using u o l by blast
qed

text \<open>
  Claim C3, amended. Let session \<open>j\<close> be the first connected session with its name,
  the one that the admin action MUTE of that name resolves to. After the MUTE, a
  subsequent MSG from session \<open>j\<close> changes nothing but the trace, where session \<open>j\<close>
  alone is told "You are muted.": nothing is broadcast and no log is appended. After a
  subsequent UNMUTE of the same user, a MSG from session \<open>j\<close> is sanitized again, that
  is, its text is replaced by \<open>clean\<close>, the first line of what the filter returned for
  it (within \<open>BUF - 1\<close> bytes), or kept when the filter returned nothing; the line
  "[room] name: clean" is appended to the log of the room and written to every
  connected session of that room. (Lines within the buffer of \<open>BUF\<close> bytes, a log
  that can be opened.)
\<close>

theorem mute_blocks_unmute_restores:
  fixes s :: server and a a' :: nat
  assumes resolves: "find_client_by_name (clients s) u = Some j"
      and mute: "strtok_r (trim_newline (cstr mute)) ''|'' = (Some ''ADMIN'', save)"
                "admin_parse save = Some (an, ADMIN_PASSWORD, Some ''MUTE'', aa, sv)"
                "admin_arg aa sv = Some u"
      and unmute: "strtok_r (trim_newline (cstr unmute)) ''|'' = (Some ''ADMIN'', save')"
                "admin_parse save' = Some (an', ADMIN_PASSWORD, Some ''UNMUTE'', aa', sv')"
                "admin_arg aa' sv' = Some u"
      and fields: "field nm" "field r" "field m"
      and sanitized:
        "filter_read e (m @ [LF]) = Some bs \<and> bs \<noteq> [] \<and>
           clean = trim_newline (cstr (take (BUF - 1) bs)) \<or>
         (filter_read e (m @ [LF]) = None \<or> filter_read e (m @ [LF]) = Some []) \<and> clean = m"
      and fit: "length (''['' @ r @ ''] '' @ nm @ '': '' @ clean) + 1 < BUF"
      and opens: "open_append_ok e (log_path r)"
  defines "msg \<equiv> ''MSG|'' @ nm @ ''|'' @ r @ ''|'' @ m @ [LF]"
      and "line \<equiv> ''['' @ r @ ''] '' @ nm @ '': '' @ clean"
  defines "s1 \<equiv> dispatch e a mute s"
  defines "s2 \<equiv> dispatch e j msg s1"
  defines "s3 \<equiv> dispatch e a' unmute s2"
  defines "s4 \<equiv> dispatch e j msg s3"
  shows "s2 = s1\<lparr>out := out s1 @ [Write j (''You are muted.'' @ [LF])]\<rparr> \<and>
         out s4 = out s3 @ map (\<lambda>k. Write k (line @ [LF])) (receivers r (clients s)) \<and>
         files s4 = (files s3)(log_path r \<mapsto>
                      (case files s3 (log_path r) of None \<Rightarrow> [] | Some old \<Rightarrow> old) @ line @ [LF])"
proof -
  have rf: "run_filter_and_get_output e m = clean"
    using sanitized by (rule run_filter_answer)
  have fit': "length (''['' @ r @ ''] '' @ nm @ '': '' @ run_filter_and_get_output e m) + 1 < BUF"
    using fit by (simp add: rf)
  show ?thesis
    unfolding s4_def s3_def s2_def s1_def msg_def line_def
    by (rule mute_unmute_sequence [OF resolves mute unmute fields fit' opens, of a a',
          unfolded rf])
qed

theorem mute_blocks_unmute_restores_witness:
  "dispatch env1 1 (''MSG|bob|lobby|darn it'' @ [LF])
     (dispatch env1 2 (''ADMIN|root|admin123 MUTE bob'' @ [LF]) st0) =
   (dispatch env1 2 (''ADMIN|root|admin123 MUTE bob'' @ [LF]) st0)
     \<lparr>out := out (dispatch env1 2 (''ADMIN|root|admin123 MUTE bob'' @ [LF]) st0) @
              [Write 1 (''You are muted.'' @ [LF])]\<rparr> \<and>
   out (dispatch env1 1 (''MSG|bob|lobby|darn it'' @ [LF])
          (dispatch env1 2 (''ADMIN|root|admin123|UNMUTE|bob'' @ [LF])
             (dispatch env1 1 (''MSG|bob|lobby|darn it'' @ [LF])
                (dispatch env1 2 (''ADMIN|root|admin123 MUTE bob'' @ [LF]) st0)))) =
   out (dispatch env1 2 (''ADMIN|root|admin123|UNMUTE|bob'' @ [LF])
          (dispatch env1 1 (''MSG|bob|lobby|darn it'' @ [LF])
             (dispatch env1 2 (''ADMIN|root|admin123 MUTE bob'' @ [LF]) st0))) @
     [Write 0 (''[lobby] bob: **** it'' @ [LF]), Write 1 (''[lobby] bob: **** it'' @ [LF])] \<and>
   files (dispatch env1 1 (''MSG|bob|lobby|darn it'' @ [LF])
          (dispatch env1 2 (''ADMIN|root|admin123|UNMUTE|bob'' @ [LF])
             (dispatch env1 1 (''MSG|bob|lobby|darn it'' @ [LF])
                (dispatch env1 2 (''ADMIN|root|admin123 MUTE bob'' @ [LF]) st0))))
     ''logs/lobby.log'' = Some (''[lobby] bob: **** it'' @ [LF])"
proof -
  have resolves: "find_client_by_name (clients st0) ''bob'' = Some 1"
    by (simp add: find_client_by_name_def st0_def client0_def)
  have m1: "strtok_r (trim_newline (cstr (''ADMIN|root|admin123 MUTE bob'' @ [LF]))) ''|'' =
              (Some ''ADMIN'', ''root|admin123 MUTE bob'')"
    by (simp add: strtok_r_def trim_newline_def cstr_def)
  have m2: "admin_parse ''root|admin123 MUTE bob'' =
              Some (''root'', ADMIN_PASSWORD, Some ''MUTE'', Some ''bob'', [])"
    by (simp add: admin_parse_def strtok_r_def split_space_def ADMIN_PASSWORD_def)
  have m3: "admin_arg (Some ''bob'') [] = Some ''bob''"
    by (simp add: admin_arg_def)
  have u1: "strtok_r (trim_newline (cstr (''ADMIN|root|admin123|UNMUTE|bob'' @ [LF]))) ''|'' =
              (Some ''ADMIN'', ''root|admin123|UNMUTE|bob'')"
    by (simp add: strtok_r_def trim_newline_def cstr_def)
  have u2: "admin_parse ''root|admin123|UNMUTE|bob'' =
              Some (''root'', ADMIN_PASSWORD, Some ''UNMUTE'', None, ''bob'')"
    by (simp add: admin_parse_def strtok_r_def split_space_def ADMIN_PASSWORD_def)
  have u3: "admin_arg None ''bob'' = Some ''bob''"
    by (simp add: admin_arg_def strtok_r_def)
  have f: "field ''bob''" "field ''lobby''" "field ''darn it''"
    by (simp_all add: field_def)
  have answer: "filter_read env1 (''darn it'' @ [LF]) = Some (''**** it'' @ [LF]) \<and>
      ''**** it'' @ [LF] \<noteq> [] \<and>
      ''**** it'' = trim_newline (cstr (take (BUF - 1) (''**** it'' @ [LF]))) \<or>
      (filter_read env1 (''darn it'' @ [LF]) = None \<or>
       filter_read env1 (''darn it'' @ [LF]) = Some []) \<and> ''**** it'' = ''darn it''"
    by (simp add: env1_def BUF_def trim_newline_def cstr_def)
  have fit: "length (''['' @ ''lobby'' @ ''] '' @ ''bob'' @ '': '' @ ''**** it'') + 1 < BUF"
    by (simp add: BUF_def)
  have opens: "open_append_ok env1 (log_path ''lobby'')"
    by (simp add: env1_def)
  have rc: "receivers ''lobby'' (clients st0) = [0, 1]"
    by (simp add: receivers_def st0_def client0_def upt_rec)
  have lp: "log_path ''lobby'' = ''logs/lobby.log''"
    by (simp add: log_path_def LOGDIR_def)
  have f3: "files (dispatch env1 2 (''ADMIN|root|admin123|UNMUTE|bob'' @ [LF])
          (dispatch env1 1 (''MSG|bob|lobby|darn it'' @ [LF])
             (dispatch env1 2 (''ADMIN|root|admin123 MUTE bob'' @ [LF]) st0))) = Map.empty"
    by (simp add: dispatch_def cmd_ADMIN_def cmd_MSG_def admin_parse_def admin_arg_def
          admin_action_def strtok_r_def split_space_def trim_newline_def cstr_def
          find_client_by_name_def ADMIN_PASSWORD_def writef_def st0_def client0_def)
  note th = mute_blocks_unmute_restores [OF resolves m1 m2 m3 u1 u2 u3 f answer fit opens, of 2 2]
  have c1: "dispatch env1 1 (''MSG|bob|lobby|darn it'' @ [LF])
     (dispatch env1 2 (''ADMIN|root|admin123 MUTE bob'' @ [LF]) st0) =
   (dispatch env1 2 (''ADMIN|root|admin123 MUTE bob'' @ [LF]) st0)
     \<lparr>out := out (dispatch env1 2 (''ADMIN|root|admin123 MUTE bob'' @ [LF]) st0) @
              [Write 1 (''You are muted.'' @ [LF])]\<rparr>"
    using th [THEN conjunct1] by simp
  have c2: "out (dispatch env1 1 (''MSG|bob|lobby|darn it'' @ [LF])
          (dispatch env1 2 (''ADMIN|root|admin123|UNMUTE|bob'' @ [LF])
             (dispatch env1 1 (''MSG|bob|lobby|darn it'' @ [LF])
                (dispatch env1 2 (''ADMIN|root|admin123 MUTE bob'' @ [LF]) st0)))) =
   out (dispatch env1 2 (''ADMIN|root|admin123|UNMUTE|bob'' @ [LF])
          (dispatch env1 1 (''MSG|bob|lobby|darn it'' @ [LF])
             (dispatch env1 2 (''ADMIN|root|admin123 MUTE bob'' @ [LF]) st0))) @
     [Write 0 (''[lobby] bob: **** it'' @ [LF]), Write 1 (''[lobby] bob: **** it'' @ [LF])]"
    using th [THEN conjunct2, THEN conjunct1] by (simp add: rc)
  have c3: "files (dispatch env1 1 (''MSG|bob|lobby|darn it'' @ [LF])
          (dispatch env1 2 (''ADMIN|root|admin123|UNMUTE|bob'' @ [LF])
             (dispatch env1 1 (''MSG|bob|lobby|darn it'' @ [LF])
                (dispatch env1 2 (''ADMIN|root|admin123 MUTE bob'' @ [LF]) st0))))
     ''logs/lobby.log'' = Some (''[lobby] bob: **** it'' @ [LF])"
    using th [THEN conjunct2, THEN conjunct2] f3 [simplified] by (simp add: lp)
  show ?thesis
    using c1 c2 c3 by blast
qed

section \<open>Registry capacity\<close>

text \<open>
  Claim C5. When every slot of the client table is connected, an accepted connection
  is answered with "Server full" on its socket and closed; the state is otherwise
  unchanged, so the number of connected slots still equals the number of slots
  (\<open>MAX_CLIENTS\<close> for the table of the server). Otherwise \<open>find_free_slot\<close> returns the
  first slot that is not connected, and a successful spawn occupies exactly that slot.
\<close>

theorem server_full:
  "(sp \<noteq> AcceptFail \<and> (\<forall>c\<in>set (clients s). connected c) \<longrightarrow>
      accept_and_spawn sp s =
        s\<lparr>out := out s @ [SockWrite (''Server full'' @ [LF]), SockClose]\<rparr> \<and>
      length (filter connected (clients (accept_and_spawn sp s))) = length (clients s) \<and>
      (table_ok s \<longrightarrow>
         length (filter connected (clients (accept_and_spawn sp s))) = MAX_CLIENTS)) \<and>
   (\<not> (\<forall>c\<in>set (clients s). connected c) \<longrightarrow>
      (\<exists>i. find_free_slot (clients s) = Some i \<and> i < length (clients s) \<and>
           \<not> connected (clients s ! i) \<and> (\<forall>j<i. connected (clients s ! j)) \<and>
           (sp = Spawned \<longrightarrow>
              clients (accept_and_spawn sp s) =
                (clients s)[i := (clients s ! i)
                   \<lparr>username := [], room := [], connected := True, muted := False\<rparr>])))"
proof (intro conjI impI)
  assume a: "sp \<noteq> AcceptFail \<and> (\<forall>c\<in>set (clients s). connected c)"
  then have n: "find_free_slot (clients s) = None"
    by (simp add: find_free_slot_def first_index_None_iff)
  with a show full: "accept_and_spawn sp s =
        s\<lparr>out := out s @ [SockWrite (''Server full'' @ [LF]), SockClose]\<rparr>"
    by (simp add: accept_and_spawn_def)
  from a have "filter connected (clients s) = clients s"
    by simp
  with full show cnt: "length (filter connected (clients (accept_and_spawn sp s))) =
      length (clients s)"
    by simp
  assume "table_ok s"
  with cnt show "length (filter connected (clients (accept_and_spawn sp s))) = MAX_CLIENTS"
    by (simp add: table_ok_def)
next
  assume "\<not> (\<forall>c\<in>set (clients s). connected c)"
  then have "find_free_slot (clients s) \<noteq> None"
    by (simp add: find_free_slot_def first_index_None_iff)
  then obtain i where i: "find_free_slot (clients s) = Some i"
    by auto
  then have p: "i < length (clients s) \<and> \<not> connected (clients s ! i) \<and>
      (\<forall>j<i. connected (clients s ! j))"
    by (simp add: find_free_slot_def first_index_Some_iff)
  have "clients (accept_and_spawn sp s) =
          (clients s)[i := (clients s ! i)
             \<lparr>username := [], room := [], connected := True, muted := False\<rparr>]"
    if "sp = Spawned"
    using that i by (simp add: accept_and_spawn_def Let_def)
  with i p show "\<exists>i. find_free_slot (clients s) = Some i \<and> i < length (clients s) \<and>
           \<not> connected (clients s ! i) \<and> (\<forall>j<i. connected (clients s ! j)) \<and>
           (sp = Spawned \<longrightarrow>
              clients (accept_and_spawn sp s) =
                (clients s)[i := (clients s ! i)
                   \<lparr>username := [], room := [], connected := True, muted := False\<rparr>])"
    by blast
qed

theorem server_full_witness:
  "accept_and_spawn Spawned st_full =
     st_full\<lparr>out := out st_full @ [SockWrite (''Server full'' @ [LF]), SockClose]\<rparr> \<and>
   length (filter connected (clients (accept_and_spawn Spawned st_full))) = MAX_CLIENTS \<and>
   find_free_slot (clients st0) = Some 4 \<and>
   clients (accept_and_spawn Spawned st0) =
     (clients st0)[4 := (clients st0 ! 4)
        \<lparr>username := [], room := [], connected := True, muted := False\<rparr>]"
proof -
  have all: "\<forall>c\<in>set (clients st_full). connected c"
    by (simp add: st_full_def client0_def)
  have ok: "table_ok st_full"
    by (simp add: table_ok_def st_full_def MAX_ROOMS_def)
  have sp: "Spawned \<noteq> AcceptFail"
    by simp
  from server_full [of Spawned st_full] all ok sp
  have a: "accept_and_spawn Spawned st_full =
             st_full\<lparr>out := out st_full @ [SockWrite (''Server full'' @ [LF]), SockClose]\<rparr>"
    and b: "length (filter connected (clients (accept_and_spawn Spawned st_full))) = MAX_CLIENTS"
    by blast+
  have free: "\<not> (\<forall>c\<in>set (clients st0). connected c)"
    by (simp add: st0_def client0_def)
  have four: "find_free_slot (clients st0) = Some 4"
    by (simp add: find_free_slot_def st0_def client0_def)
  from server_full [of Spawned st0] free four
  have c: "clients (accept_and_spawn Spawned st0) =
     (clients st0)[4 := (clients st0 ! 4)
        \<lparr>username := [], room := [], connected := True, muted := False\<rparr>]"
    by auto
  show ?thesis
    using a b four c by blast
qed

section \<open>Private messages\<close>





section \<open>History\<close>

lemma concat_chunks: "0 < n \<Longrightarrow> concat (chunks n xs) = xs"
proof (induction n xs rule: chunks.induct)
  case (1 n xs)
  show ?case
  proof (cases "xs = []")
    case True
    then show ?thesis by (simp add: chunks.simps)
  next
    case False
    with "1.prems" have "chunks n xs = take n xs # chunks n (drop n xs)"
      by (subst chunks.simps) simp
    moreover have "concat (chunks n (drop n xs)) = drop n xs"
      using "1.IH" "1.prems" False by simp
    ultimately show ?thesis by simp
  qed
qed

lemma fold_write_fd: "fold (write_fd i) cs s = s\<lparr>out := out s @ map (Write i) cs\<rparr>"
  by (induction cs arbitrary: s) (simp_all add: write_fd_def)

lemma fold_append_room_log:
  assumes "open_append_ok e (log_path r)" "ms \<noteq> []"
  shows "files (fold (append_room_log e r) ms s) (log_path r) =
           Some ((case files s (log_path r) of None \<Rightarrow> [] | Some old \<Rightarrow> old) @
                 concat (map (\<lambda>m. m @ [LF]) ms))"
  using assms(2)
proof (induction ms arbitrary: s)
  case Nil
  then show ?case by simp
next
  case (Cons m ms)
  have one: "files (append_room_log e r m s) (log_path r) =
               Some ((case files s (log_path r) of None \<Rightarrow> [] | Some old \<Rightarrow> old) @ m @ [LF])"
    using assms(1) by (simp add: append_room_log_def)
  show ?case
  proof (cases "ms = []")
    case True
    with one show ?thesis by simp
  next
    case False
    from Cons.IH [OF False, of "append_room_log e r m s"] one
    show ?thesis by simp
  qed
qed

lemma fold_append_room_log_out: "out (fold (append_room_log e r) ms s) = out s"
  by (simp add: fold_keeps)

lemma dispatch_HISTORY:
  assumes "field r"
  shows "dispatch e i (''HISTORY|'' @ r @ [LF]) s =
           (case files s (log_path r) of
              None \<Rightarrow> writef i (''No history for '' @ r @ [LF]) s
            | Some content \<Rightarrow> fold (write_fd i) (chunks 1024 content) s)"
proof -
  have p: "plain (''HISTORY|'' @ r)"
    using assms by (simp add: field_def)
  have l: "trim_newline (cstr (''HISTORY|'' @ r @ [LF])) = ''HISTORY|'' @ r"
    using line_of_buf [OF p] by simp
  have c: "strtok_r (''HISTORY|'' @ r) ''|'' = (Some ''HISTORY'', r)"
    using tok_field [of "''HISTORY''"] by (simp add: field_def)
  have t1: "strtok_r r ''|'' = (Some r, [])"
    by (rule tok_last [OF assms])
  show ?thesis
    unfolding dispatch_def l c by (simp add: cmd_HISTORY_def t1)
qed

text \<open>
  Claim C7. After the lines \<open>M1 .. Mk\<close> were appended to the log of room \<open>R\<close>, a HISTORY
  request for \<open>R\<close> writes to the requester, in pieces of at most 1024 bytes, exactly the
  bytes of the log: what the file held before, followed by each \<open>Mi\<close> and a newline, in
  the order of the appends. When there is no log file for \<open>R\<close>, the requester receives
  the line "No history for R" and nothing else happens.
\<close>

theorem history_round_trip:
  assumes room: "field r"
      and opens: "open_append_ok e (log_path r)"
      and some: "ms \<noteq> []"
  shows "out (dispatch e i (''HISTORY|'' @ r @ [LF]) (fold (append_room_log e r) ms s)) =
           out s @ map (Write i)
             (chunks 1024
                ((case files s (log_path r) of None \<Rightarrow> [] | Some old \<Rightarrow> old) @
                 concat (map (\<lambda>m. m @ [LF]) ms))) \<and>
         concat (chunks 1024
                ((case files s (log_path r) of None \<Rightarrow> [] | Some old \<Rightarrow> old) @
                 concat (map (\<lambda>m. m @ [LF]) ms))) =
           (case files s (log_path r) of None \<Rightarrow> [] | Some old \<Rightarrow> old) @
           concat (map (\<lambda>m. m @ [LF]) ms) \<and>
         (files s (log_path r) = None \<and> length r + 16 < BUF \<longrightarrow>
            dispatch e i (''HISTORY|'' @ r @ [LF]) s =
              s\<lparr>out := out s @ [Write i (''No history for '' @ r @ [LF])]\<rparr>)"
proof (intro conjI impI)
  show "out (dispatch e i (''HISTORY|'' @ r @ [LF]) (fold (append_room_log e r) ms s)) =
           out s @ map (Write i)
             (chunks 1024
                ((case files s (log_path r) of None \<Rightarrow> [] | Some old \<Rightarrow> old) @
                 concat (map (\<lambda>m. m @ [LF]) ms)))"
    unfolding dispatch_HISTORY [OF room]
    by (simp add: fold_append_room_log [OF opens some] fold_append_room_log_out fold_write_fd)
next
  show "concat (chunks 1024
                ((case files s (log_path r) of None \<Rightarrow> [] | Some old \<Rightarrow> old) @
                 concat (map (\<lambda>m. m @ [LF]) ms))) =
           (case files s (log_path r) of None \<Rightarrow> [] | Some old \<Rightarrow> old) @
           concat (map (\<lambda>m. m @ [LF]) ms)"
    by (rule concat_chunks) simp
next
  assume "files s (log_path r) = None \<and> length r + 16 < BUF"
  then show "dispatch e i (''HISTORY|'' @ r @ [LF]) s =
              s\<lparr>out := out s @ [Write i (''No history for '' @ r @ [LF])]\<rparr>"
    unfolding dispatch_HISTORY [OF room] by (simp add: writef_def)
qed

theorem history_round_trip_witness:
  "out (dispatch env0 0 (''HISTORY|lobby'' @ [LF])
         (fold (append_room_log env0 ''lobby'')
            [''[lobby] alice: hello'', ''[lobby] bob: hi''] st0)) =
     [Write 0 (''[lobby] alice: hello'' @ [LF] @ ''[lobby] bob: hi'' @ [LF])] \<and>
   dispatch env0 0 (''HISTORY|lobby'' @ [LF]) st0 =
     st0\<lparr>out := out st0 @ [Write 0 (''No history for lobby'' @ [LF])]\<rparr>"
proof -
  have room: "field ''lobby''"
    by (simp add: field_def)
  have opens: "open_append_ok env0 (log_path ''lobby'')"
    by (simp add: env0_def)
  have some: "[''[lobby] alice: hello'', ''[lobby] bob: hi''] \<noteq> []"
    by simp
  have none: "files st0 (log_path ''lobby'') = None \<and> length ''lobby'' + 16 < BUF"
    by (simp add: st0_def BUF_def)
  note th = history_round_trip [OF room opens some, of 0 st0]
  have a: "out (dispatch env0 0 (''HISTORY|lobby'' @ [LF])
         (fold (append_room_log env0 ''lobby'')
            [''[lobby] alice: hello'', ''[lobby] bob: hi''] st0)) =
     [Write 0 (''[lobby] alice: hello'' @ [LF] @ ''[lobby] bob: hi'' @ [LF])]"
    using th [THEN conjunct1] none
    by (simp add: chunks.simps st0_def)
  have b: "dispatch env0 0 (''HISTORY|lobby'' @ [LF]) st0 =
     st0\<lparr>out := out st0 @ [Write 0 (''No history for lobby'' @ [LF])]\<rparr>"
    using th [THEN conjunct2, THEN conjunct2] none
    by simp
  show ?thesis
    using a b by blast
qed

section \<open>The room table\<close>

lemma rooms_ext_refl: "rooms_ext s s"
  by (simp add: rooms_ext_def)

lemma rooms_ext_same: "rooms s' = rooms s \<Longrightarrow> rooms_ext s s'"
  by (simp add: rooms_ext_def)

lemma rooms_ext_trans:
  assumes "rooms_ext s s'" "rooms_ext s' s''"
  shows "rooms_ext s s''"
proof -
  from assms(1) obtain xs where xs: "rooms s' = rooms s @ xs"
    "MAX_ROOMS \<le> length (rooms s) \<longrightarrow> xs = []"
    by (auto simp: rooms_ext_def)
  from assms(2) obtain ys where ys: "rooms s'' = rooms s' @ ys"
    "MAX_ROOMS \<le> length (rooms s') \<longrightarrow> ys = []"
    by (auto simp: rooms_ext_def)
  have "rooms s'' = rooms s @ (xs @ ys)"
    using xs ys by simp
  moreover have "MAX_ROOMS \<le> length (rooms s) \<longrightarrow> xs @ ys = []"
    using xs ys by auto
  ultimately show ?thesis
    unfolding rooms_ext_def by blast
qed

lemma fold_rooms_ext:
  assumes "\<And>x s. rooms_ext s (f x s)"
  shows "rooms_ext s (fold f xs s)"
proof (induction xs arbitrary: s)
  case Nil
  show ?case by (simp add: rooms_ext_refl)
next
  case (Cons x xs)
  show ?case
    using rooms_ext_trans [OF assms [of s x] Cons.IH [of "f x s"]] by simp
qed

lemma rooms_simps [simp]:
  "rooms (write_fd k t s) = rooms s"
  "rooms (printf t s) = rooms s"
  "rooms (close_client k s) = rooms s"
  "rooms (write_all P t s) = rooms s"
  by (simp_all add: write_fd_def printf_def close_client_def write_all_eq)

lemma add_room_ext: "rooms_ext s (add_room_if_missing r s)"
  by (simp add: rooms_ext_def add_room_if_missing_def)

lemma broadcast_ext: "rooms_ext s (broadcast_to_room e r sender m s)"
proof -
  have "rooms (broadcast_to_room e r sender m s) = rooms (add_room_if_missing r s)"
    by (simp add: broadcast_to_room_eq)
  then show ?thesis
    using add_room_ext [of s r] by (simp add: rooms_ext_def)
qed

lemma cmd_JOIN_ext: "rooms_ext s (cmd_JOIN e i save s)"
proof -
  have "rooms_ext s (broadcast_to_room e r ''server'' m
          (writef i w (add_room_if_missing r (s\<lparr>clients := cs\<rparr>))))" for r m w cs
  proof -
    let ?s1 = "s\<lparr>clients := cs\<rparr>"
    let ?s3 = "writef i w (add_room_if_missing r ?s1)"
    have a: "rooms_ext s (add_room_if_missing r ?s1)"
      using add_room_ext [of ?s1 r] by (simp add: rooms_ext_def)
    have b: "rooms_ext (add_room_if_missing r ?s1) ?s3"
      by (simp add: rooms_ext_same)
    show ?thesis
      by (rule rooms_ext_trans [OF rooms_ext_trans [OF a b] broadcast_ext])
  qed
  then show ?thesis
    by (simp add: cmd_JOIN_def Let_def rooms_ext_refl split: prod.splits option.splits)
qed

lemma cmd_MSG_ext: "rooms_ext s (cmd_MSG e i save s)"
  by (simp add: cmd_MSG_def rooms_ext_refl rooms_ext_same broadcast_ext
      split: prod.splits option.splits)

lemma cmd_PM_rooms: "rooms (cmd_PM e i save s) = rooms s"
  by (simp add: cmd_PM_def send_private_def split: prod.splits option.splits bool.splits)

lemma appeal_forward_rooms: "rooms (snd (appeal_forward sender m s)) = rooms s"
proof -
  have "rooms (snd (fold f ks (n, s))) = rooms s"
    if "\<And>k p. rooms (snd (f k p)) = rooms (snd p)" for f :: "nat \<Rightarrow> nat \<times> server \<Rightarrow> nat \<times> server"
      and ks n
    using that fold_keeps [of "\<lambda>p. rooms (snd p)" f ks "(n, s)"] by simp
  then show ?thesis
    unfolding appeal_forward_def by (simp add: appeal_step_def split_def)
qed

lemma cmd_APPEAL_rooms: "rooms (cmd_APPEAL i save s) = rooms s"
proof -
  have "rooms (snd (appeal_forward sender m (s\<lparr>last_appeal_msg := l\<rparr>))) = rooms s" for sender m l
    by (simp add: appeal_forward_rooms)
  then have a: "appeal_forward sender m (s\<lparr>last_appeal_msg := l\<rparr>) = (n, s2) \<Longrightarrow> rooms s2 = rooms s"
    for sender m l n s2
    by (metis snd_conv)
  have b: "appeal_forward sender m s = (n, s2) \<Longrightarrow> rooms s2 = rooms s" for sender m n s2
    using appeal_forward_rooms [of sender m s] by simp
  show ?thesis
    by (auto simp: cmd_APPEAL_def Let_def a b split: prod.splits option.splits)
qed

lemma cmd_HISTORY_rooms: "rooms (cmd_HISTORY i save s) = rooms s"
  by (simp add: cmd_HISTORY_def fold_keeps split: prod.splits option.splits)

lemma cmd_ROOMS_rooms: "rooms (cmd_ROOMS i s) = rooms s"
  by (simp add: cmd_ROOMS_def fold_keeps)

lemma cmd_QUIT_rooms: "rooms (cmd_QUIT i s) = rooms s"
  by (simp add: cmd_QUIT_def)

lemma admin_action_ext: "rooms_ext s (admin_action e i w aa sv s)"
  unfolding admin_action_def
  by (simp add: rooms_ext_same rooms_ext_refl broadcast_ext fold_keeps split: option.splits)

lemma cmd_ADMIN_ext: "rooms_ext s (cmd_ADMIN e i save s)"
proof -
  have "rooms_ext s (admin_action e i w aa sv (s\<lparr>clients := cs\<rparr>))" for w aa sv cs
    using admin_action_ext [of "s\<lparr>clients := cs\<rparr>" e i w aa sv] by (simp add: rooms_ext_def)
  then show ?thesis
    by (simp add: cmd_ADMIN_def Let_def rooms_ext_same split: option.splits prod.splits)
qed

lemma dispatch_ext: "rooms_ext s (dispatch e i buf s)"
  unfolding dispatch_def
  by (simp add: cmd_JOIN_ext cmd_MSG_ext cmd_ADMIN_ext rooms_ext_refl
      rooms_ext_same cmd_PM_rooms cmd_APPEAL_rooms cmd_HISTORY_rooms cmd_ROOMS_rooms
      cmd_QUIT_rooms split: prod.splits option.splits)

lemma service_ext: "rooms_ext s (service e i r s)"
  by (simp add: service_def dispatch_ext rooms_ext_refl rooms_ext_same split: rd.splits)

lemma accept_rooms: "rooms (accept_and_spawn sp s) = rooms s"
  by (simp add: accept_and_spawn_def Let_def split: option.splits)

lemma do_step_ext: "rooms_ext s (do_step e st s)"
  by (simp add: do_step_def service_ext accept_rooms rooms_ext_same split: step.splits)

lemma handle_parent_messages_ext: "rooms_ext s (handle_parent_messages e inp s)"
  unfolding handle_parent_messages_def by (rule fold_rooms_ext) (rule service_ext)

lemma main_cycle_ext: "rooms_ext s (main_cycle e c s)"
proof -
  have "rooms_ext s (case fst c of None \<Rightarrow> s | Some sp \<Rightarrow> accept_and_spawn sp s)"
    by (simp add: accept_rooms rooms_ext_refl rooms_ext_same split: option.splits)
  then show ?thesis
    unfolding main_cycle_def by (rule rooms_ext_trans [OF _ handle_parent_messages_ext])
qed

lemma rooms_main_init: "rooms (main_init fs) = [''lobby'']"
  by (simp add: main_init_def add_room_if_missing_def MAX_ROOMS_def)

text \<open>
  Claim C10. In every state that the broker reaches from startup, also between two
  commands of one pass of \<open>handle_parent_messages\<close>, the room table starts with "lobby",
  which \<open>main\<close> registers before the first connection is accepted: the room count is not
  zero, and both ROOMS commands (the client's and the admin's) take the branch that
  lists the rooms, never the branch that replies "No rooms".
\<close>

theorem lobby_always_present:
  "(\<exists>xs. rooms (run e fs steps) = ''lobby'' # xs) \<and>
   length (rooms (run e fs steps)) \<noteq> 0 \<and>
   cmd_ROOMS i (run e fs steps) =
     fold (\<lambda>r. writef i (r @ [LF])) (rooms (run e fs steps)) (run e fs steps) \<and>
   admin_action e i ''ROOMS'' aa sv (run e fs steps) =
     fold (\<lambda>r. writef i ('' - '' @ r @ [LF])) (rooms (run e fs steps))
       (writef i (''Rooms ('' @ dec (length (rooms (run e fs steps))) @ ''):'' @ [LF])
          (run e fs steps)) \<and>
   (\<exists>xs. rooms (main_loop e fs cycles) = ''lobby'' # xs)"
proof -
  have "rooms_ext (main_init fs) (run e fs steps)"
    unfolding run_def by (rule fold_rooms_ext) (rule do_step_ext)
  then have r: "\<exists>xs. rooms (run e fs steps) = ''lobby'' # xs"
    by (auto simp: rooms_ext_def rooms_main_init)
  then have n: "length (rooms (run e fs steps)) \<noteq> 0"
    by auto
  have "rooms_ext (main_init fs) (main_loop e fs cycles)"
    unfolding main_loop_def by (rule fold_rooms_ext) (rule main_cycle_ext)
  then have m: "\<exists>xs. rooms (main_loop e fs cycles) = ''lobby'' # xs"
    by (auto simp: rooms_ext_def rooms_main_init)
  show ?thesis
    using r n m by (simp add: cmd_ROOMS_def admin_action_def)
qed

section \<open>A full room table\<close>

lemma add_room_full: "MAX_ROOMS \<le> length (rooms s) \<Longrightarrow> add_room_if_missing r s = s"
  by (simp add: add_room_if_missing_def)

lemma dispatch_JOIN:
  assumes "field nm" "field r"
  shows "dispatch e i (''JOIN|'' @ nm @ ''|'' @ r @ [LF]) s =
           broadcast_to_room e r ''server'' ''a new user has joined''
             (writef i (''Welcome '' @ nm @ '' to '' @ r @ [LF])
                (add_room_if_missing r
                   (s\<lparr>clients := (clients s)
                        [i := (clients s ! i)\<lparr>username := take 63 nm, room := take 63 r\<rparr>]\<rparr>)))"
proof -
  have p: "plain (''JOIN|'' @ nm @ ''|'' @ r)"
    using assms by (simp add: field_def)
  have l: "trim_newline (cstr (''JOIN|'' @ nm @ ''|'' @ r @ [LF])) = ''JOIN|'' @ nm @ ''|'' @ r"
    using line_of_buf [OF p] by simp
  have c: "strtok_r (''JOIN|'' @ nm @ ''|'' @ r) ''|'' = (Some ''JOIN'', nm @ ''|'' @ r)"
    using tok_field [of "''JOIN''"] by (simp add: field_def)
  have t1: "strtok_r (nm @ CHR ''|'' # r) ''|'' = (Some nm, r)"
    by (rule tok_field [OF assms(1)])
  have t2: "strtok_r r ''|'' = (Some r, [])"
    by (rule tok_last [OF assms(2)])
  show ?thesis
    unfolding dispatch_def l c by (simp add: cmd_JOIN_def t1 t2 Let_def)
qed

lemma join_when_full:
  assumes fields: "field nm" "field r"
      and full: "MAX_ROOMS \<le> length (rooms s)"
      and fit: "length nm + length r + 13 < BUF"
               "length (''['' @ r @ ''] server: '' @
                  run_filter_and_get_output e ''a new user has joined'') + 1 < BUF"
  shows "dispatch e i (''JOIN|'' @ nm @ ''|'' @ r @ [LF]) s =
           (append_room_log e r
              (''['' @ r @ ''] server: '' @ run_filter_and_get_output e ''a new user has joined'')
              (s\<lparr>clients := (clients s)
                   [i := (clients s ! i)\<lparr>username := take 63 nm, room := take 63 r\<rparr>]\<rparr>))
           \<lparr>out := out s @
              Write i (''Welcome '' @ nm @ '' to '' @ r @ [LF]) #
              map (\<lambda>k. Write k (''['' @ r @ ''] server: '' @
                                 run_filter_and_get_output e ''a new user has joined'' @ [LF]))
                (receivers r ((clients s)
                   [i := (clients s ! i)\<lparr>username := take 63 nm, room := take 63 r\<rparr>]))\<rparr>"
proof -
  let ?l = "''['' @ r @ ''] server: '' @ run_filter_and_get_output e ''a new user has joined''"
  let ?s1 = "s\<lparr>clients := (clients s)
                   [i := (clients s ! i)\<lparr>username := take 63 nm, room := take 63 r\<rparr>]\<rparr>"
  have a: "add_room_if_missing r ?s1 = ?s1"
    using full by (simp add: add_room_full)
  have a': "add_room_if_missing r (writef i w ?s1) = writef i w ?s1" for w
    using full by (simp add: add_room_full)
  have t: "take (BUF - 1) ?l = ?l"
    using fit(2) by simp
  have w: "wr k (?l @ [LF]) = Write k (?l @ [LF])" for k
    using fit(2) by (simp add: wr_fits)
  have t': "take (BUF - Suc 0) (CHR ''['' # r @ ''] server: '' @
              run_filter_and_get_output e ''a new user has joined'') = ?l"
    using t by simp
  show ?thesis
    unfolding dispatch_JOIN [OF fields] a broadcast_to_room_eq a'
    using fit(1) w t' by (simp add: writef_def append_room_log_def)
qed

text \<open>
  The claim as stated (C9) fails: with 128 rooms in the table, the line
  \<open>JOIN|alice|den\<close> is not rejected. The session is moved to "den", it is welcomed there,
  and the join notice is written to the log of "den" and to the session. Only the
  room table stays as it was.
\<close>

theorem full_table_join_counterexample:
  "length (rooms st_rooms_full) = MAX_ROOMS \<and>
   ''den'' \<notin> set (rooms st_rooms_full) \<and>
   room (clients st_rooms_full ! 0) = ''lobby'' \<and>
   room (clients (dispatch env0 0 (''JOIN|alice|den'' @ [LF]) st_rooms_full) ! 0) = ''den'' \<and>
   out (dispatch env0 0 (''JOIN|alice|den'' @ [LF]) st_rooms_full) =
     [Write 0 (''Welcome alice to den'' @ [LF]),
      Write 0 (''[den] server: a new user has joined'' @ [LF])] \<and>
   files st_rooms_full ''logs/den.log'' = None \<and>
   files (dispatch env0 0 (''JOIN|alice|den'' @ [LF]) st_rooms_full) ''logs/den.log'' =
     Some (''[den] server: a new user has joined'' @ [LF])"
proof -
  have len: "length (rooms st_rooms_full) = MAX_ROOMS"
    by (simp add: st_rooms_full_def MAX_ROOMS_def)
  have new: "''den'' \<notin> set (rooms st_rooms_full)"
    by (auto simp: st_rooms_full_def)
  have f: "field ''alice''" "field ''den''"
    by (simp_all add: field_def)
  have filt: "run_filter_and_get_output env0 m = m" for m
    by (simp add: run_filter_and_get_output_def env0_def)
  have fit: "length ''alice'' + length ''den'' + 13 < BUF"
    "length (''['' @ ''den'' @ ''] server: '' @
       run_filter_and_get_output env0 ''a new user has joined'') + 1 < BUF"
    by (simp_all add: filt BUF_def)
  have full: "MAX_ROOMS \<le> length (rooms st_rooms_full)"
    using len by simp
  have cs: "clients st_rooms_full = clients st0" and o: "out st_rooms_full = []"
    and fl: "files st_rooms_full = Map.empty"
    by (simp_all add: st_rooms_full_def st0_def)
  have rc: "receivers ''den'' ((clients st0)
              [0 := (clients st0 ! 0)\<lparr>username := take 63 ''alice'', room := take 63 ''den''\<rparr>]) = [0]"
    by (simp add: receivers_def st0_def client0_def upt_rec)
  note j = join_when_full [OF f full fit, of 0, unfolded cs filt rc o]
  have a: "room (clients st_rooms_full ! 0) = ''lobby''"
    by (simp add: cs st0_def client0_def)
  have b: "room (clients (dispatch env0 0 (''JOIN|alice|den'' @ [LF]) st_rooms_full) ! 0) = ''den''"
    using j by (simp add: cs st0_def)
  have c: "out (dispatch env0 0 (''JOIN|alice|den'' @ [LF]) st_rooms_full) =
     [Write 0 (''Welcome alice to den'' @ [LF]),
      Write 0 (''[den] server: a new user has joined'' @ [LF])]"
    using j by simp
  have d: "files (dispatch env0 0 (''JOIN|alice|den'' @ [LF]) st_rooms_full) ''logs/den.log'' =
     Some (''[den] server: a new user has joined'' @ [LF])"
    using j by (simp add: append_room_log_def env0_def log_path_def LOGDIR_def fl)
  show ?thesis
    using len new a b c d fl by simp
qed

text \<open>
  Claim C9, amended. When the room table already holds \<open>MAX_ROOMS\<close> rooms, no command
  changes the room table, so a new room name is not added. The command that names the
  new room is carried out all the same, without a message about the table: a JOIN
  records the name and the room of the session, replies "Welcome", and the join notice
  is logged and written to the connected sessions of that room.
\<close>

theorem full_table_keeps_rooms:
  assumes full: "MAX_ROOMS \<le> length (rooms s)"
  shows "rooms (dispatch e i buf s) = rooms s \<and>
         (field nm \<and> field r \<and> length nm + length r + 13 < BUF \<and>
          length (''['' @ r @ ''] server: '' @
                  run_filter_and_get_output e ''a new user has joined'') + 1 < BUF \<longrightarrow>
          clients (dispatch e i (''JOIN|'' @ nm @ ''|'' @ r @ [LF]) s) =
            (clients s)[i := (clients s ! i)\<lparr>username := take 63 nm, room := take 63 r\<rparr>] \<and>
          out (dispatch e i (''JOIN|'' @ nm @ ''|'' @ r @ [LF]) s) =
            out s @
            Write i (''Welcome '' @ nm @ '' to '' @ r @ [LF]) #
            map (\<lambda>k. Write k (''['' @ r @ ''] server: '' @
                               run_filter_and_get_output e ''a new user has joined'' @ [LF]))
              (receivers r ((clients s)
                 [i := (clients s ! i)\<lparr>username := take 63 nm, room := take 63 r\<rparr>])) \<and>
          files (dispatch e i (''JOIN|'' @ nm @ ''|'' @ r @ [LF]) s) =
            files (append_room_log e r
                     (''['' @ r @ ''] server: '' @
                      run_filter_and_get_output e ''a new user has joined'') s))"
proof (intro conjI impI)
  show "rooms (dispatch e i buf s) = rooms s"
    using dispatch_ext [of s e i buf] full by (auto simp: rooms_ext_def)
next
  assume h: "field nm \<and> field r \<and> length nm + length r + 13 < BUF \<and>
          length (''['' @ r @ ''] server: '' @
                  run_filter_and_get_output e ''a new user has joined'') + 1 < BUF"
  then have j: "dispatch e i (''JOIN|'' @ nm @ ''|'' @ r @ [LF]) s =
           (append_room_log e r
              (''['' @ r @ ''] server: '' @ run_filter_and_get_output e ''a new user has joined'')
              (s\<lparr>clients := (clients s)
                   [i := (clients s ! i)\<lparr>username := take 63 nm, room := take 63 r\<rparr>]\<rparr>))
           \<lparr>out := out s @
              Write i (''Welcome '' @ nm @ '' to '' @ r @ [LF]) #
              map (\<lambda>k. Write k (''['' @ r @ ''] server: '' @
                                 run_filter_and_get_output e ''a new user has joined'' @ [LF]))
                (receivers r ((clients s)
                   [i := (clients s ! i)\<lparr>username := take 63 nm, room := take 63 r\<rparr>]))\<rparr>"
    using join_when_full [OF _ _ full] by blast
  show "clients (dispatch e i (''JOIN|'' @ nm @ ''|'' @ r @ [LF]) s) =
            (clients s)[i := (clients s ! i)\<lparr>username := take 63 nm, room := take 63 r\<rparr>]"
    unfolding j by simp
  show "out (dispatch e i (''JOIN|'' @ nm @ ''|'' @ r @ [LF]) s) =
            out s @
            Write i (''Welcome '' @ nm @ '' to '' @ r @ [LF]) #
            map (\<lambda>k. Write k (''['' @ r @ ''] server: '' @
                               run_filter_and_get_output e ''a new user has joined'' @ [LF]))
              (receivers r ((clients s)
                 [i := (clients s ! i)\<lparr>username := take 63 nm, room := take 63 r\<rparr>]))"
    unfolding j by simp
  show "files (dispatch e i (''JOIN|'' @ nm @ ''|'' @ r @ [LF]) s) =
            files (append_room_log e r
                     (''['' @ r @ ''] server: '' @
                      run_filter_and_get_output e ''a new user has joined'') s)"
    unfolding j by (simp add: append_room_log_def)
qed

theorem full_table_keeps_rooms_witness:
  "rooms (dispatch env0 0 (''JOIN|alice|den'' @ [LF]) st_rooms_full) = rooms st_rooms_full \<and>
   clients (dispatch env0 0 (''JOIN|alice|den'' @ [LF]) st_rooms_full) =
     (clients st_rooms_full)
       [0 := (clients st_rooms_full ! 0)\<lparr>username := ''alice'', room := ''den''\<rparr>]"
proof -
  have full: "MAX_ROOMS \<le> length (rooms st_rooms_full)"
    by (simp add: st_rooms_full_def MAX_ROOMS_def)
  have h: "field ''alice'' \<and> field ''den'' \<and> length ''alice'' + length ''den'' + 13 < BUF \<and>
      length (''['' @ ''den'' @ ''] server: '' @
              run_filter_and_get_output env0 ''a new user has joined'') + 1 < BUF"
    by (simp add: field_def BUF_def run_filter_and_get_output_def env0_def)
  note th = full_table_keeps_rooms [OF full, of env0 0 _ "''alice''" "''den''"]
  have a: "rooms (dispatch env0 0 (''JOIN|alice|den'' @ [LF]) st_rooms_full) = rooms st_rooms_full"
    using th [THEN conjunct1] .
  have b: "clients (dispatch env0 0 (''JOIN|alice|den'' @ [LF]) st_rooms_full) =
     (clients st_rooms_full)
       [0 := (clients st_rooms_full ! 0)\<lparr>username := ''alice'', room := ''den''\<rparr>]"
    using th [THEN conjunct2] h by simp
  show ?thesis
    using a b by blast
qed

section \<open>The two forms of the ADMIN payload\<close>

lemma split_space_at:
  "CHR '' '' \<notin> set t \<Longrightarrow> split_space (t @ CHR '' '' # rest) = (t, Some rest)"
  by (simp add: split_space_def takeWhile_until dropWhile_until)

lemma split_space_none: "CHR '' '' \<notin> set t \<Longrightarrow> split_space t = (t, None)"
  by (simp add: split_space_def)

lemma strtok_r_Nil: "strtok_r [] d = (None, [])"
  by (simp add: strtok_r_def)

lemma admin_parse_pipe:
  assumes "field name" "word pw" "word act" "field args"
  shows "admin_parse (name @ ''|'' @ pw @ ''|'' @ act @ ''|'' @ args) =
           Some (name, pw, Some act, None, args)"
proof -
  have t1: "strtok_r (name @ CHR ''|'' # pw @ CHR ''|'' # act @ CHR ''|'' # args) ''|'' =
              (Some name, pw @ CHR ''|'' # act @ CHR ''|'' # args)"
    by (rule tok_field [OF assms(1)])
  have t2: "strtok_r (pw @ CHR ''|'' # act @ CHR ''|'' # args) ''|'' =
              (Some pw, act @ CHR ''|'' # args)"
    using assms(2) by (simp add: word_def tok_field)
  have t3: "strtok_r (act @ CHR ''|'' # args) ''|'' = (Some act, args)"
    using assms(3) by (simp add: word_def tok_field)
  have sp: "split_space act = (act, None)"
    using assms(3) by (simp add: word_def split_space_none)
  show ?thesis
    by (simp add: admin_parse_def t1 t2 t3 sp)
qed

lemma admin_parse_hybrid:
  assumes "field name" "word pw" "word act" "field args"
  shows "admin_parse (name @ ''|'' @ pw @ '' '' @ act @ '' '' @ args) =
           Some (name, pw, Some act, Some args, [])"
proof -
  have third: "field (pw @ CHR '' '' # act @ CHR '' '' # args)"
    using assms by (simp add: word_def field_def)
  have t1: "strtok_r (name @ CHR ''|'' # pw @ CHR '' '' # act @ CHR '' '' # args) ''|'' =
              (Some name, pw @ CHR '' '' # act @ CHR '' '' # args)"
    by (rule tok_field [OF assms(1)])
  have t2: "strtok_r (pw @ CHR '' '' # act @ CHR '' '' # args) ''|'' =
              (Some (pw @ CHR '' '' # act @ CHR '' '' # args), [])"
    by (rule tok_last [OF third])
  have s1: "split_space (pw @ CHR '' '' # act @ CHR '' '' # args) =
              (pw, Some (act @ CHR '' '' # args))"
    using assms(2) by (simp add: word_def split_space_at)
  have s2: "split_space (act @ CHR '' '' # args) = (act, Some args)"
    using assms(3) by (simp add: word_def split_space_at)
  show ?thesis
    by (simp add: admin_parse_def t1 t2 strtok_r_Nil s1 s2)
qed

lemma admin_parse_pipe_noarg:
  assumes "field name" "word pw" "word act"
  shows "admin_parse (name @ ''|'' @ pw @ ''|'' @ act) = Some (name, pw, Some act, None, [])"
proof -
  have t1: "strtok_r (name @ CHR ''|'' # pw @ CHR ''|'' # act) ''|'' =
              (Some name, pw @ CHR ''|'' # act)"
    by (rule tok_field [OF assms(1)])
  have t2: "strtok_r (pw @ CHR ''|'' # act) ''|'' = (Some pw, act)"
    using assms(2) by (simp add: word_def tok_field)
  have t3: "strtok_r act ''|'' = (Some act, [])"
    using assms(3) by (simp add: word_def tok_last)
  have sp: "split_space act = (act, None)"
    using assms(3) by (simp add: word_def split_space_none)
  show ?thesis
    by (simp add: admin_parse_def t1 t2 t3 sp)
qed

lemma admin_parse_hybrid_noarg:
  assumes "field name" "word pw" "word act"
  shows "admin_parse (name @ ''|'' @ pw @ '' '' @ act) = Some (name, pw, Some act, None, [])"
proof -
  have third: "field (pw @ CHR '' '' # act)"
    using assms by (simp add: word_def field_def)
  have t1: "strtok_r (name @ CHR ''|'' # pw @ CHR '' '' # act) ''|'' =
              (Some name, pw @ CHR '' '' # act)"
    by (rule tok_field [OF assms(1)])
  have t2: "strtok_r (pw @ CHR '' '' # act) ''|'' = (Some (pw @ CHR '' '' # act), [])"
    by (rule tok_last [OF third])
  have s1: "split_space (pw @ CHR '' '' # act) = (pw, Some act)"
    using assms(2) by (simp add: word_def split_space_at)
  have s2: "split_space act = (act, None)"
    using assms(3) by (simp add: word_def split_space_none)
  show ?thesis
    by (simp add: admin_parse_def t1 t2 strtok_r_Nil s1 s2)
qed

lemma admin_action_arg:
  "admin_arg aa sv = admin_arg aa' sv' \<Longrightarrow>
     admin_action e i w aa sv s = admin_action e i w aa' sv' s"
  by (simp add: admin_action_def)

lemma dispatch_ADMIN:
  assumes "plain payload"
  shows "dispatch e i (''ADMIN|'' @ payload @ [LF]) s = cmd_ADMIN e i payload s"
proof -
  have p: "plain (''ADMIN|'' @ payload)"
    using assms by simp
  have l: "trim_newline (cstr (''ADMIN|'' @ payload @ [LF])) = ''ADMIN|'' @ payload"
    using line_of_buf [OF p] by simp
  have c: "strtok_r (''ADMIN|'' @ payload) ''|'' = (Some ''ADMIN'', payload)"
    using tok_field [of "''ADMIN''"] by (simp add: field_def)
  show ?thesis
    unfolding dispatch_def l c by simp
qed

lemma cmd_ADMIN_same:
  assumes "admin_parse p = Some (name, pw, w, aa, sv)"
      and "admin_parse p' = Some (name, pw, w, aa', sv')"
      and "admin_arg aa sv = admin_arg aa' sv'"
  shows "cmd_ADMIN e i p s = cmd_ADMIN e i p' s"
  using assms admin_action_arg [OF assms(3)]
  by (simp add: cmd_ADMIN_def Let_def split: option.splits)

text \<open>
  The claim as stated (C6) fails for strings that contain a delimiter. With the
  argument \<open>a|b\<close> the pipe form yields the argument \<open>a\<close> and broadcasts it, while the
  hybrid form takes \<open>admin123 BROADCAST a\<close> for the password and fails to
  authenticate.
\<close>

theorem admin_forms_counterexample:
  "admin_tuple ''root|admin123|BROADCAST|a|b'' =
     Some (''root'', ''admin123'', Some ''BROADCAST'', Some ''a'') \<and>
   admin_tuple ''root|admin123 BROADCAST a|b'' =
     Some (''root'', ''admin123 BROADCAST a'', Some ''b'', None) \<and>
   out (dispatch env0 2 (''ADMIN|root|admin123|BROADCAST|a|b'' @ [LF]) st0) =
     [Write 0 (''[global] admin: a'' @ [LF]), Write 1 (''[global] admin: a'' @ [LF]),
      Write 2 (''[global] admin: a'' @ [LF]), Write 3 (''[global] admin: a'' @ [LF])] \<and>
   out (dispatch env0 2 (''ADMIN|root|admin123 BROADCAST a|b'' @ [LF]) st0) =
     [Write 2 (''Admin auth failed'' @ [LF])]"
proof -
  have p1: "admin_parse ''root|admin123|BROADCAST|a|b'' =
              Some (''root'', ''admin123'', Some ''BROADCAST'', None, ''a|b'')"
    by (simp add: admin_parse_def strtok_r_def split_space_def)
  have p2: "admin_parse ''root|admin123 BROADCAST a|b'' =
              Some (''root'', ''admin123 BROADCAST a'', Some ''b'', None, [])"
    by (simp add: admin_parse_def strtok_r_def split_space_def)
  have a1: "admin_arg None ''a|b'' = Some ''a''" and a2: "admin_arg None [] = None"
    by (simp_all add: admin_arg_def strtok_r_def)
  have t1: "admin_tuple ''root|admin123|BROADCAST|a|b'' =
     Some (''root'', ''admin123'', Some ''BROADCAST'', Some ''a'')"
    by (simp add: admin_tuple_def p1 a1)
  have t2: "admin_tuple ''root|admin123 BROADCAST a|b'' =
     Some (''root'', ''admin123 BROADCAST a'', Some ''b'', None)"
    by (simp add: admin_tuple_def p2 a2)
  have pl: "plain ''root|admin123|BROADCAST|a|b''" "plain ''root|admin123 BROADCAST a|b''"
    by simp_all
  have idx: "[0..<length (clients st0)] = [0, 1, 2, 3, 4]"
    by (simp add: st0_def upt_rec)
  have c1: "dispatch env0 2 (''ADMIN|root|admin123|BROADCAST|a|b'' @ [LF]) st0 =
              cmd_ADMIN env0 2 ''root|admin123|BROADCAST|a|b'' st0"
    using dispatch_ADMIN [OF pl(1), of env0 2 st0] by simp
  have c2: "dispatch env0 2 (''ADMIN|root|admin123 BROADCAST a|b'' @ [LF]) st0 =
              cmd_ADMIN env0 2 ''root|admin123 BROADCAST a|b'' st0"
    using dispatch_ADMIN [OF pl(2), of env0 2 st0] by simp
  have d1: "out (dispatch env0 2 (''ADMIN|root|admin123|BROADCAST|a|b'' @ [LF]) st0) =
     [Write 0 (''[global] admin: a'' @ [LF]), Write 1 (''[global] admin: a'' @ [LF]),
      Write 2 (''[global] admin: a'' @ [LF]), Write 3 (''[global] admin: a'' @ [LF])]"
    unfolding c1
    by (simp add: cmd_ADMIN_def p1 a1 ADMIN_PASSWORD_def admin_action_def Let_def
        broadcast_to_room_eq run_filter_and_get_output_def env0_def receivers_def
        wr_def BUF_def idx)
       (simp add: st0_def client0_def)
  have d2: "out (dispatch env0 2 (''ADMIN|root|admin123 BROADCAST a|b'' @ [LF]) st0) =
     [Write 2 (''Admin auth failed'' @ [LF])]"
    unfolding c2
    by (simp add: cmd_ADMIN_def p2 ADMIN_PASSWORD_def writef_def BUF_def st0_def)
  show ?thesis
    using t1 t2 d1 d2 by blast
qed

text \<open>
  Claim C6, amended. For a name and an argument that are not empty and contain no
  \<open>|\<close>, NUL, CR or LF, and a password and an action that in addition contain no space,
  the pipe form \<open>name|password|ACTION|args\<close> and the hybrid form
  \<open>name|password ACTION args\<close> yield the same tuple \<open>(name, password, ACTION, args)\<close>, and
  the broker does the same on both lines in every state. The same holds for the two
  forms without an argument, \<open>name|password|ACTION\<close> and \<open>name|password ACTION\<close>.
\<close>

theorem admin_forms_agree:
  assumes "field name" "word pw" "word act" "field args"
  shows "admin_tuple (name @ ''|'' @ pw @ ''|'' @ act @ ''|'' @ args) =
           Some (name, pw, Some act, Some args) \<and>
         admin_tuple (name @ ''|'' @ pw @ '' '' @ act @ '' '' @ args) =
           Some (name, pw, Some act, Some args) \<and>
         dispatch e i (''ADMIN|'' @ name @ ''|'' @ pw @ ''|'' @ act @ ''|'' @ args @ [LF]) s =
           dispatch e i (''ADMIN|'' @ name @ ''|'' @ pw @ '' '' @ act @ '' '' @ args @ [LF]) s \<and>
         admin_tuple (name @ ''|'' @ pw @ ''|'' @ act) = Some (name, pw, Some act, None) \<and>
         admin_tuple (name @ ''|'' @ pw @ '' '' @ act) = Some (name, pw, Some act, None) \<and>
         dispatch e i (''ADMIN|'' @ name @ ''|'' @ pw @ ''|'' @ act @ [LF]) s =
           dispatch e i (''ADMIN|'' @ name @ ''|'' @ pw @ '' '' @ act @ [LF]) s"
proof -
  note pp = admin_parse_pipe [OF assms]
  note ph = admin_parse_hybrid [OF assms]
  note np = admin_parse_pipe_noarg [OF assms(1-3)]
  note nh = admin_parse_hybrid_noarg [OF assms(1-3)]
  have ar: "admin_arg None args = Some args"
    using assms(4) by (simp add: admin_arg_def tok_last)
  have ar': "admin_arg (Some args) [] = Some args" and an: "admin_arg None [] = None"
    by (simp_all add: admin_arg_def strtok_r_Nil)
  have pl: "plain name" "plain pw" "plain act" "plain args"
    using assms by (simp_all add: word_def field_def)
  have d1: "dispatch e i (''ADMIN|'' @ name @ ''|'' @ pw @ ''|'' @ act @ ''|'' @ args @ [LF]) s =
              cmd_ADMIN e i (name @ ''|'' @ pw @ ''|'' @ act @ ''|'' @ args) s"
    using dispatch_ADMIN [of "name @ ''|'' @ pw @ ''|'' @ act @ ''|'' @ args" e i s] pl by simp
  have d2: "dispatch e i (''ADMIN|'' @ name @ ''|'' @ pw @ '' '' @ act @ '' '' @ args @ [LF]) s =
              cmd_ADMIN e i (name @ ''|'' @ pw @ '' '' @ act @ '' '' @ args) s"
    using dispatch_ADMIN [of "name @ ''|'' @ pw @ '' '' @ act @ '' '' @ args" e i s] pl by simp
  have d3: "dispatch e i (''ADMIN|'' @ name @ ''|'' @ pw @ ''|'' @ act @ [LF]) s =
              cmd_ADMIN e i (name @ ''|'' @ pw @ ''|'' @ act) s"
    using dispatch_ADMIN [of "name @ ''|'' @ pw @ ''|'' @ act" e i s] pl by simp
  have d4: "dispatch e i (''ADMIN|'' @ name @ ''|'' @ pw @ '' '' @ act @ [LF]) s =
              cmd_ADMIN e i (name @ ''|'' @ pw @ '' '' @ act) s"
    using dispatch_ADMIN [of "name @ ''|'' @ pw @ '' '' @ act" e i s] pl by simp
  have e1: "cmd_ADMIN e i (name @ ''|'' @ pw @ ''|'' @ act @ ''|'' @ args) s =
            cmd_ADMIN e i (name @ ''|'' @ pw @ '' '' @ act @ '' '' @ args) s"
    by (rule cmd_ADMIN_same [OF pp ph]) (simp add: ar ar')
  have e2: "cmd_ADMIN e i (name @ ''|'' @ pw @ ''|'' @ act) s =
            cmd_ADMIN e i (name @ ''|'' @ pw @ '' '' @ act) s"
    by (rule cmd_ADMIN_same [OF np nh]) simp
  show ?thesis
    unfolding d1 d2 d3 d4 admin_tuple_def pp ph np nh
    using e1 e2 by (simp add: ar ar' an)
qed

theorem admin_forms_agree_witness:
  "admin_tuple ''root|admin123|KICK|bob'' =
     Some (''root'', ''admin123'', Some ''KICK'', Some ''bob'') \<and>
   admin_tuple ''root|admin123 KICK bob'' =
     Some (''root'', ''admin123'', Some ''KICK'', Some ''bob'') \<and>
   dispatch env0 2 (''ADMIN|root|admin123|KICK|bob'' @ [LF]) st0 =
     dispatch env0 2 (''ADMIN|root|admin123 KICK bob'' @ [LF]) st0"
proof -
  have f: "field ''root''" "word ''admin123''" "word ''KICK''" "field ''bob''"
    by (simp_all add: field_def word_def)
  note th = admin_forms_agree [OF f, of env0 2 st0]
  have a: "admin_tuple ''root|admin123|KICK|bob'' =
     Some (''root'', ''admin123'', Some ''KICK'', Some ''bob'')"
    using th [THEN conjunct1] by simp
  have b: "admin_tuple ''root|admin123 KICK bob'' =
     Some (''root'', ''admin123'', Some ''KICK'', Some ''bob'')"
    using th [THEN conjunct2, THEN conjunct1] by simp
  have c: "dispatch env0 2 (''ADMIN|root|admin123|KICK|bob'' @ [LF]) st0 =
     dispatch env0 2 (''ADMIN|root|admin123 KICK bob'' @ [LF]) st0"
    using th [THEN conjunct2, THEN conjunct2, THEN conjunct1] by simp
  show ?thesis
    using a b c by blast
qed

section \<open>Appeals\<close>

lemma appeal_step_fold:
  "fst (fold (appeal_step sender m) ks (n, st)) =
     n + length (filter (\<lambda>k. connected (clients st ! k) \<and> is_admin (clients st ! k)) ks) \<and>
   out (snd (fold (appeal_step sender m) ks (n, st))) =
     out st @ map (\<lambda>k. wr k (''[APPEAL] '' @ sender @ '': '' @ m @ [LF]))
                (filter (\<lambda>k. connected (clients st ! k) \<and> is_admin (clients st ! k)) ks) \<and>
   clients (snd (fold (appeal_step sender m) ks (n, st))) = clients st \<and>
   rooms (snd (fold (appeal_step sender m) ks (n, st))) = rooms st \<and>
   files (snd (fold (appeal_step sender m) ks (n, st))) = files st \<and>
   last_appeal_msg (snd (fold (appeal_step sender m) ks (n, st))) = last_appeal_msg st"
proof (induction ks arbitrary: n st)
  case Nil
  show ?case by simp
next
  case (Cons k ks)
  show ?case
  proof (cases "connected (clients st ! k) \<and> is_admin (clients st ! k)")
    case True
    then have "appeal_step sender m k (n, st) =
                 (Suc n, printf (''Forwarded APPEAL from '' @ [QUOTE] @ sender @ [QUOTE] @
                        '' to admin slot '' @ dec k @ '' (user='' @ [QUOTE] @
                        (if username (clients st ! k) \<noteq> [] then username (clients st ! k)
                         else ''(unnamed)'') @ [QUOTE] @ '', room='' @ [QUOTE] @
                        (if room (clients st ! k) \<noteq> [] then room (clients st ! k)
                         else ''(none)'') @ [QUOTE] @ '')'' @ [LF])
                  (writef k (''[APPEAL] '' @ sender @ '': '' @ m @ [LF]) st))"
      (is "_ = (_, ?st)")
      by (simp add: appeal_step_def)
    moreover have "clients ?st = clients st" "rooms ?st = rooms st" "files ?st = files st"
      "last_appeal_msg ?st = last_appeal_msg st"
      "out ?st = out st @ [wr k (''[APPEAL] '' @ sender @ '': '' @ m @ [LF])]"
      by (simp_all add: printf_def writef_def wr_def)
    ultimately show ?thesis
      using True Cons.IH [of "Suc n" ?st] by simp
  next
    case False
    then have "appeal_step sender m k (n, st) = (n, st)"
      by (auto simp: appeal_step_def)
    with False Cons.IH [of n st] show ?thesis by simp
  qed
qed

lemma appeal_forward_eq:
  "fst (appeal_forward sender m s) = length (admins (clients s)) \<and>
   out (snd (appeal_forward sender m s)) =
     out s @ map (\<lambda>k. wr k (''[APPEAL] '' @ sender @ '': '' @ m @ [LF])) (admins (clients s)) \<and>
   clients (snd (appeal_forward sender m s)) = clients s \<and>
   rooms (snd (appeal_forward sender m s)) = rooms s \<and>
   files (snd (appeal_forward sender m s)) = files s \<and>
   last_appeal_msg (snd (appeal_forward sender m s)) = last_appeal_msg s"
  unfolding appeal_forward_def admins_def
  using appeal_step_fold [of sender m "[0..<length (clients s)]" 0 s] by simp

lemma dispatch_APPEAL:
  assumes "field sender" "m \<noteq> []" "plain m"
  shows "dispatch e i (''APPEAL|'' @ sender @ ''|'' @ m @ [LF]) s = cmd_APPEAL i (sender @ ''|'' @ m) s"
proof -
  have p: "plain (''APPEAL|'' @ sender @ ''|'' @ m)"
    using assms by (simp add: field_def)
  have l: "trim_newline (cstr (''APPEAL|'' @ sender @ ''|'' @ m @ [LF])) =
             ''APPEAL|'' @ sender @ ''|'' @ m"
    using line_of_buf [OF p] by simp
  have c: "strtok_r (''APPEAL|'' @ sender @ ''|'' @ m) ''|'' = (Some ''APPEAL'', sender @ ''|'' @ m)"
    using tok_field [of "''APPEAL''"] by (simp add: field_def)
  show ?thesis
    unfolding dispatch_def l c by simp
qed

lemma dec_short: "n < 1000 \<Longrightarrow> length (dec n) \<le> 3"
  by (subst dec.simps, subst dec.simps, subst dec.simps) (auto simp: dec.simps)

lemma admins_le: "length (admins cs) \<le> length cs"
  unfolding admins_def using length_filter_le [of _ "[0..<length cs]"] by simp

text \<open>
  The effect of an APPEAL line, by cases on the record of the slot that the sender's
  name resolves to.
\<close>

lemma cmd_APPEAL_effect:
  fixes i :: nat
  assumes fields: "field sender" "m \<noteq> []" "plain m"
      and fit: "length sender + length m + 12 < BUF"
      and table: "length (clients s) \<le> MAX_CLIENTS"
  defines "s1 \<equiv> cmd_APPEAL i (sender @ ''|'' @ m) s"
  defines "dup \<equiv> (case find_client_by_name (clients s) sender of
                     None \<Rightarrow> False | Some j \<Rightarrow> last_appeal_msg s ! j = m)"
  shows "(dup \<longrightarrow>
            s1 = s\<lparr>out := out s @
                     [Write i (''Your appeal was already sent to admins recently.'' @ [LF])]\<rparr>) \<and>
         (\<not> dup \<longrightarrow>
            out s1 = out s @
               map (\<lambda>k. Write k (''[APPEAL] '' @ sender @ '': '' @ m @ [LF])) (admins (clients s)) @
               [Write i (if admins (clients s) = []
                         then ''No admins currently online. Try again later.'' @ [LF]
                         else ''Your appeal was sent to '' @ dec (length (admins (clients s))) @
                              '' admin(s).'' @ [LF])] \<and>
            last_appeal_msg s1 =
              (case find_client_by_name (clients s) sender of
                 None \<Rightarrow> last_appeal_msg s
               | Some j \<Rightarrow> (last_appeal_msg s)[j := take 511 m]) \<and>
            clients s1 = clients s \<and> rooms s1 = rooms s \<and> files s1 = files s)"
proof -
  have t1: "strtok_r (sender @ CHR ''|'' # m) ''|'' = (Some sender, m)"
    by (rule tok_field [OF fields(1)])
  have t2: "strtok_r m [LF] = (Some m, [])"
    using fields(2,3) by (simp add: plain_def strtok_r_last)
  have w: "wr k (''[APPEAL] '' @ sender @ '': '' @ m @ [LF]) =
             Write k (''[APPEAL] '' @ sender @ '': '' @ m @ [LF])" for k
    using fit by (simp add: wr_fits)
  have d: "length (dec (length (admins (clients s)))) \<le> 3"
    using admins_le [of "clients s"] table by (intro dec_short) (simp add: MAX_CLIENTS_def)
  have cond: "(case find_client_by_name (clients s) sender of None \<Rightarrow> False
               | Some j \<Rightarrow> last_appeal_msg s ! j \<noteq> [] \<and> last_appeal_msg s ! j = m) = dup"
    using fields(2) by (auto simp: dup_def split: option.splits)
  let ?s' = "case find_client_by_name (clients s) sender of
               None \<Rightarrow> s
             | Some j \<Rightarrow> s\<lparr>last_appeal_msg := (last_appeal_msg s)[j := take 511 m]\<rparr>"
  have cs: "clients ?s' = clients s" "out ?s' = out s" "rooms ?s' = rooms s" "files ?s' = files s"
    by (simp_all split: option.splits)
  have la: "last_appeal_msg ?s' =
              (case find_client_by_name (clients s) sender of
                 None \<Rightarrow> last_appeal_msg s
               | Some j \<Rightarrow> (last_appeal_msg s)[j := take 511 m])"
    by (simp split: option.splits)
  obtain n s2 where af: "appeal_forward sender m ?s' = (n, s2)"
    by (cases "appeal_forward sender m ?s'")
  from appeal_forward_eq [of sender m ?s'] af
  have n: "n = length (admins (clients s))"
    and o2: "out s2 = out s @
               map (\<lambda>k. Write k (''[APPEAL] '' @ sender @ '': '' @ m @ [LF])) (admins (clients s))"
    and k2: "clients s2 = clients s" "rooms s2 = rooms s" "files s2 = files s"
      "last_appeal_msg s2 = last_appeal_msg ?s'"
    using fit by (simp_all add: cs wr_fits)
  have s1_dup: "dup \<Longrightarrow> s1 = writef i (''Your appeal was already sent to admins recently.'' @ [LF]) s"
    unfolding s1_def cmd_APPEAL_def using cond by (simp add: t1 t2 Let_def)
  have s1_new: "\<not> dup \<Longrightarrow> s1 =
      (if n = 0 then writef i (''No admins currently online. Try again later.'' @ [LF]) s2
       else writef i (''Your appeal was sent to '' @ dec n @ '' admin(s).'' @ [LF]) s2)"
    unfolding s1_def cmd_APPEAL_def using cond af by (simp add: t1 t2 Let_def)
  have a: "dup \<Longrightarrow>
            s1 = s\<lparr>out := out s @
                     [Write i (''Your appeal was already sent to admins recently.'' @ [LF])]\<rparr>"
    using s1_dup by (simp add: writef_def BUF_def)
  have b: "out s1 = out s @
               map (\<lambda>k. Write k (''[APPEAL] '' @ sender @ '': '' @ m @ [LF])) (admins (clients s)) @
               [Write i (if admins (clients s) = []
                         then ''No admins currently online. Try again later.'' @ [LF]
                         else ''Your appeal was sent to '' @ dec (length (admins (clients s))) @
                              '' admin(s).'' @ [LF])]"
    if "\<not> dup"
    using s1_new [OF that] d by (simp add: writef_def BUF_def o2 n)
  have c: "last_appeal_msg s1 =
              (case find_client_by_name (clients s) sender of
                 None \<Rightarrow> last_appeal_msg s
               | Some j \<Rightarrow> (last_appeal_msg s)[j := take 511 m]) \<and>
            clients s1 = clients s \<and> rooms s1 = rooms s \<and> files s1 = files s"
    if "\<not> dup"
    using s1_new [OF that] by (simp add: k2 la)
  show ?thesis
    using a b c by blast
qed



text \<open>
  The record holds 511 bytes. A longer text is stored cut, never compares equal to
  the record, and is forwarded again each time it is sent.
\<close>

lemma appeal_long_text_forwarded_again:
  fixes i :: nat
  assumes fields: "field sender" "m \<noteq> []" "plain m"
      and long: "512 \<le> length m"
      and fit: "length sender + length m + 12 < BUF"
      and table: "length (clients s) \<le> MAX_CLIENTS"
                 "length (last_appeal_msg s) = length (clients s)"
      and resolves: "find_client_by_name (clients s) sender = Some j"
      and stored: "length (last_appeal_msg s ! j) < 512"
  defines "line \<equiv> ''APPEAL|'' @ sender @ ''|'' @ m @ [LF]"
      and "forwards \<equiv> map (\<lambda>k. Write k (''[APPEAL] '' @ sender @ '': '' @ m @ [LF]))
                         (admins (clients s))"
      and "reply \<equiv> Write i (if admins (clients s) = []
                              then ''No admins currently online. Try again later.'' @ [LF]
                              else ''Your appeal was sent to '' @
                                   dec (length (admins (clients s))) @ '' admin(s).'' @ [LF])"
  shows "out (dispatch e i line (dispatch e i line s)) =
           out s @ forwards @ [reply] @ forwards @ [reply]"
proof -
  have d: "dispatch e i line s' = cmd_APPEAL i (sender @ ''|'' @ m) s'" for s'
    unfolding line_def by (rule dispatch_APPEAL [OF fields])
  let ?s1 = "cmd_APPEAL i (sender @ ''|'' @ m) s"
  have j: "j < length (last_appeal_msg s)"
    using find_client_by_name_less [OF resolves] table(2) by simp
  have ne: "x \<noteq> m" if "length x < 512" for x
    using that long by auto
  have n0: "last_appeal_msg s ! j \<noteq> m"
    using stored by (rule ne)
  from cmd_APPEAL_effect [OF fields fit table(1), of i] resolves n0
  have o1: "out ?s1 = out s @ forwards @ [reply]"
    and l1: "last_appeal_msg ?s1 = (last_appeal_msg s)[j := take 511 m]"
    and c1: "clients ?s1 = clients s"
    unfolding forwards_def reply_def by simp_all
  have t1: "length (clients ?s1) \<le> MAX_CLIENTS"
    using table(1) c1 by simp
  have r1: "find_client_by_name (clients ?s1) sender = Some j"
    using resolves c1 by simp
  have n1: "last_appeal_msg ?s1 ! j \<noteq> m"
    using j l1 ne [of "take 511 m"] by simp
  from cmd_APPEAL_effect [OF fields fit t1, of i] r1 n1
  have "out (cmd_APPEAL i (sender @ ''|'' @ m) ?s1) = out ?s1 @ forwards @ [reply]"
    unfolding forwards_def reply_def c1 by simp
  then show ?thesis
    unfolding d using o1 by simp
qed

section \<open>The size of the tables\<close>

text \<open>
  The lists that stand for the arrays \<open>clients\<close> and \<open>last_appeal_msg\<close> keep their
  \<open>MAX_CLIENTS\<close> entries, and the room table never exceeds \<open>MAX_ROOMS\<close> entries, in
  every state that the broker reaches.
\<close>

lemma fold_inv:
  assumes "\<And>x s. I s \<Longrightarrow> I (f x s)" "I s"
  shows "I (fold f xs s)"
  using assms(2) by (induction xs arbitrary: s) (simp_all add: assms(1))

lemma table_ok_cong:
  "length (clients s') = length (clients s) \<Longrightarrow>
   length (last_appeal_msg s') = length (last_appeal_msg s) \<Longrightarrow>
   rooms s' = rooms s \<Longrightarrow> table_ok s' = table_ok s"
  by (simp add: table_ok_def)

lemma table_ok_simps [simp]:
  "table_ok (writef k t s) = table_ok s"
  "table_ok (write_fd k t s) = table_ok s"
  "table_ok (printf t s) = table_ok s"
  "table_ok (close_client k s) = table_ok s"
  "table_ok (append_room_log e r m s) = table_ok s"
  "table_ok (s\<lparr>out := ev\<rparr>) = table_ok s"
  by (simp_all add: table_ok_def writef_def write_fd_def printf_def close_client_def
      append_room_log_def)

lemma table_ok_add_room: "table_ok s \<Longrightarrow> table_ok (add_room_if_missing r s)"
  by (simp add: table_ok_def add_room_if_missing_def)

lemma table_ok_broadcast: "table_ok s \<Longrightarrow> table_ok (broadcast_to_room e r sender m s)"
  by (simp add: broadcast_to_room_eq table_ok_add_room)

lemma table_ok_flags:
  "table_ok (s\<lparr>clients := (clients s)[k := c]\<rparr>) = table_ok s"
  by (simp add: table_ok_def)

lemma table_ok_JOIN: "table_ok s \<Longrightarrow> table_ok (cmd_JOIN e i save s)"
  by (simp add: cmd_JOIN_def Let_def table_ok_broadcast table_ok_add_room table_ok_flags
      split: prod.splits option.splits)

lemma table_ok_MSG: "table_ok s \<Longrightarrow> table_ok (cmd_MSG e i save s)"
  by (simp add: cmd_MSG_def table_ok_broadcast split: prod.splits option.splits)

lemma table_ok_PM: "table_ok s \<Longrightarrow> table_ok (cmd_PM e i save s)"
  by (simp add: cmd_PM_def send_private_def split: prod.splits option.splits bool.splits)

lemma table_ok_APPEAL: "table_ok s \<Longrightarrow> table_ok (cmd_APPEAL i save s)"
proof -
  have a: "table_ok s2 = table_ok s'" if "appeal_forward sender m s' = (n, s2)"
    for sender m s' n s2
    using appeal_forward_eq [of sender m s'] that by (simp add: table_ok_def)
  have b: "table_ok (s\<lparr>last_appeal_msg := (last_appeal_msg s)[j := x]\<rparr>) = table_ok s" for j x
    by (simp add: table_ok_def)
  assume "table_ok s"
  then show ?thesis
    by (auto simp: cmd_APPEAL_def Let_def a b split: prod.splits option.splits)
qed

lemma table_ok_HISTORY: "table_ok s \<Longrightarrow> table_ok (cmd_HISTORY i save s)"
  by (simp add: cmd_HISTORY_def fold_keeps split: prod.splits option.splits)

lemma table_ok_ROOMS: "table_ok s \<Longrightarrow> table_ok (cmd_ROOMS i s)"
  by (simp add: cmd_ROOMS_def fold_keeps)

lemma table_ok_admin_action: "table_ok s \<Longrightarrow> table_ok (admin_action e i w aa sv s)"
  unfolding admin_action_def
  by (simp add: table_ok_broadcast table_ok_flags fold_keeps split: option.splits)

lemma table_ok_ADMIN: "table_ok s \<Longrightarrow> table_ok (cmd_ADMIN e i save s)"
  by (simp add: cmd_ADMIN_def Let_def table_ok_admin_action table_ok_flags
      split: option.splits prod.splits)

lemma table_ok_dispatch: "table_ok s \<Longrightarrow> table_ok (dispatch e i buf s)"
  unfolding dispatch_def
  by (simp add: table_ok_JOIN table_ok_MSG table_ok_PM table_ok_APPEAL table_ok_HISTORY
      table_ok_ROOMS table_ok_ADMIN cmd_QUIT_def split: prod.splits option.splits)

lemma table_ok_do_step: "table_ok s \<Longrightarrow> table_ok (do_step e st s)"
  by (simp add: do_step_def service_def accept_and_spawn_def Let_def table_ok_dispatch
      table_ok_flags split: step.splits rd.splits option.splits)

lemma table_ok_main_init: "table_ok (main_init fs)"
  by (simp add: main_init_def add_room_if_missing_def table_ok_def MAX_ROOMS_def)

lemma table_ok_run: "table_ok (run e fs steps)"
  unfolding run_def
  by (rule fold_inv [where I = table_ok]) (simp_all add: table_ok_do_step table_ok_main_init)

end
